theory Spec2Isabelle
  imports Main
begin

section \<open>Account pool: data model\<close>

text \<open>
  The gateway keeps a pool of Google accounts. The model follows
  \<^verbatim>\<open>src/account-manager\<close>: \<^verbatim>\<open>rate-limits.ts\<close>, \<^verbatim>\<open>selection.ts\<close>, \<^verbatim>\<open>storage.ts\<close> and the
  \<^verbatim>\<open>AccountManager\<close> class. \<^verbatim>\<open>Date.now()\<close> is the explicit argument \<open>now\<close> (epoch
  milliseconds): the calls that one synchronous function makes read the same instant.
  JavaScript numbers that hold times and counts are \<open>int\<close>.
\<close>

text \<open>JSON values, for the fields of the persisted file that the core never reads.\<close>

datatype jval =
    JNull
  | JBool bool
  | JNum int
  | JStr string
  | JArr "jval list"
  | JObj "(string \<times> jval) list"

text \<open>\<^verbatim>\<open>ModelRateLimit\<close>: \<^verbatim>\<open>{ isRateLimited: boolean, resetTime: number | null }\<close>.\<close>

record ModelRateLimit =
  isRateLimited :: bool
  resetTime :: "int option"

text \<open>
  \<^verbatim>\<open>Account\<close>. A nullish field (\<^verbatim>\<open>null\<close> or \<^verbatim>\<open>undefined\<close>) is \<open>None\<close>. The source
  reads \<^verbatim>\<open>isInvalid\<close> only by truthiness or through \<^verbatim>\<open>?? false\<close>, and \<^verbatim>\<open>modelRateLimits\<close>
  only through \<^verbatim>\<open>?.\<close>, \<^verbatim>\<open>?? {}\<close> or after creating it, so an absent flag is \<open>False\<close> and an
  absent table is the empty table. The table is an association list in insertion order.
  \<open>extra\<close> holds every other property of the JavaScript object, that is, the fields of a
  persisted account that the core does not know.
\<close>

record Account =
  email :: string
  source :: "string option"
  dbPath :: "string option"
  refreshToken :: "string option"
  apiKey :: "string option"
  projectId :: "string option"
  addedAt :: "int option"
  isInvalid :: bool
  invalidReason :: "string option"
  invalidAt :: "int option"
  modelRateLimits :: "(string \<times> ModelRateLimit) list"
  lastUsed :: "int option"
  extra :: "(string \<times> jval) list"

text \<open>\<^verbatim>\<open>AccountSettings\<close>: the core reads \<^verbatim>\<open>cooldownDurationMs\<close> only.\<close>

record AccountSettings =
  cooldownDurationMs :: "int option"
  settings_extra :: "(string \<times> jval) list"

text \<open>
  Constants of \<^verbatim>\<open>src/constants.ts\<close>, a file that is not part of the sources at hand. They
  are parameters of the model.
\<close>

record Constants =
  DEFAULT_COOLDOWN_MS :: int
  MAX_WAIT_BEFORE_ERROR_MS :: int
  MAX_RETRIES :: nat
  MIN_SIGNATURE_LENGTH :: nat
  TOKEN_REFRESH_INTERVAL_MS :: int

text \<open>
  JavaScript truthiness of a \<^verbatim>\<open>string | null\<close> model id: \<^verbatim>\<open>null\<close> and the empty string
  are falsy.
\<close>

fun truthy :: "string option \<Rightarrow> bool" where
  "truthy None = False"
| "truthy (Some s) = (s \<noteq> [])"

text \<open>
  The test \<^verbatim>\<open>limit.isRateLimited && limit.resetTime !== null && limit.resetTime > Date.now()\<close>
  that \<^verbatim>\<open>isAllRateLimited\<close>, \<^verbatim>\<open>getAvailableAccounts\<close> and \<^verbatim>\<open>isAccountUsable\<close> each
  spell out.
\<close>

definition limitActive :: "int \<Rightarrow> ModelRateLimit \<Rightarrow> bool" where
  "limitActive now l =
     (isRateLimited l \<and> (case resetTime l of None \<Rightarrow> False | Some t \<Rightarrow> t > now))"

section \<open>Rate limits (\<^verbatim>\<open>rate-limits.ts\<close>)\<close>

definition isAllRateLimited :: "Account list \<Rightarrow> string option \<Rightarrow> int \<Rightarrow> bool" where
  "isAllRateLimited accs modelId now =
     (if length accs = 0 then True
      else if \<not> truthy modelId then False
      else list_all (\<lambda>acc.
             if isInvalid acc then True
             else (case map_of (modelRateLimits acc) (the modelId) of
                     None \<Rightarrow> False
                   | Some l \<Rightarrow> limitActive now l)) accs)"

definition getAvailableAccounts :: "Account list \<Rightarrow> string option \<Rightarrow> int \<Rightarrow> Account list" where
  "getAvailableAccounts accs modelId now =
     filter (\<lambda>acc.
       if isInvalid acc then False
       else if truthy modelId then
         (case map_of (modelRateLimits acc) (the modelId) of
            None \<Rightarrow> True
          | Some l \<Rightarrow> \<not> limitActive now l)
       else True) accs"

definition getInvalidAccounts :: "Account list \<Rightarrow> Account list" where
  "getInvalidAccounts accs = filter isInvalid accs"

text \<open>
  \<^verbatim>\<open>clearExpiredLimits\<close> mutates the limits in place and returns how many it cleared; the
  model returns the new account list with the count.
\<close>

definition limitExpired :: "int \<Rightarrow> ModelRateLimit \<Rightarrow> bool" where
  "limitExpired now l =
     (isRateLimited l \<and> (case resetTime l of None \<Rightarrow> False | Some t \<Rightarrow> t \<le> now))"

definition clearLimit :: "int \<Rightarrow> ModelRateLimit \<Rightarrow> ModelRateLimit" where
  "clearLimit now l =
     (if limitExpired now l then l\<lparr>isRateLimited := False, resetTime := None\<rparr> else l)"

definition clearAccountLimits :: "int \<Rightarrow> Account \<Rightarrow> Account" where
  "clearAccountLimits now acc =
     acc\<lparr>modelRateLimits := map (\<lambda>(m, l). (m, clearLimit now l)) (modelRateLimits acc)\<rparr>"

definition countExpired :: "int \<Rightarrow> Account \<Rightarrow> nat" where
  "countExpired now acc = length (filter (\<lambda>(m, l). limitExpired now l) (modelRateLimits acc))"

definition clearExpiredLimits :: "Account list \<Rightarrow> int \<Rightarrow> Account list \<times> nat" where
  "clearExpiredLimits accs now =
     (map (clearAccountLimits now) accs, sum_list (map (countExpired now) accs))"

definition resetAllRateLimits :: "Account list \<Rightarrow> Account list" where
  "resetAllRateLimits accs =
     map (\<lambda>acc. acc\<lparr>modelRateLimits :=
            map (\<lambda>(m, l). (m, \<lparr>isRateLimited = False, resetTime = None\<rparr>)) (modelRateLimits acc)\<rparr>)
         accs"

text \<open>
  Assignment \<^verbatim>\<open>obj[key] = v\<close> on a JavaScript object: an existing key keeps its place, a
  new key goes last.
\<close>

fun assign :: "string \<Rightarrow> 'v \<Rightarrow> (string \<times> 'v) list \<Rightarrow> (string \<times> 'v) list" where
  "assign k v [] = [(k, v)]"
| "assign k v ((k', v') # kvs) = (if k' = k then (k, v) # kvs else (k', v') # assign k v kvs)"

text \<open>
  \<^verbatim>\<open>accounts.find((a) => a.email === email)\<close> followed by a mutation of the account found:
  the first account with that email is updated.
\<close>

fun updateFirst :: "string \<Rightarrow> (Account \<Rightarrow> Account) \<Rightarrow> Account list \<Rightarrow> Account list" where
  "updateFirst e f [] = []"
| "updateFirst e f (a # as) = (if email a = e then f a # as else a # updateFirst e f as)"

definition markRateLimited ::
  "Constants \<Rightarrow> Account list \<Rightarrow> string \<Rightarrow> int option \<Rightarrow> AccountSettings \<Rightarrow> string \<Rightarrow> int
     \<Rightarrow> Account list \<times> bool" where
  "markRateLimited C accs e resetMs sett modelId now =
     (case find (\<lambda>a. email a = e) accs of
        None \<Rightarrow> (accs, False)
      | Some _ \<Rightarrow>
          (let cooldownMs = (case resetMs of
                               Some r \<Rightarrow> r
                             | None \<Rightarrow> (case cooldownDurationMs sett of
                                          Some c \<Rightarrow> c
                                        | None \<Rightarrow> DEFAULT_COOLDOWN_MS C));
               newLimit = \<lparr>isRateLimited = True, resetTime = Some (now + cooldownMs)\<rparr>
           in (updateFirst e
                 (\<lambda>a. a\<lparr>modelRateLimits := assign modelId newLimit (modelRateLimits a)\<rparr>) accs,
               True)))"


text \<open>
  \<^verbatim>\<open>getMinWaitTimeMs\<close>: the loop keeps the smallest positive \<^verbatim>\<open>resetTime - now\<close> over the
  accounts that hold a limit for the model; \<^verbatim>\<open>Infinity\<close> is \<open>None\<close>.
\<close>

definition accountWait :: "string option \<Rightarrow> int \<Rightarrow> Account \<Rightarrow> int option" where
  "accountWait modelId now acc =
     (if truthy modelId then
        (case map_of (modelRateLimits acc) (the modelId) of
           None \<Rightarrow> None
         | Some l \<Rightarrow>
             (if isRateLimited l then
                (case resetTime l of None \<Rightarrow> None | Some t \<Rightarrow> Some (t - now))
              else None))
      else None)"

fun minWaitLoop :: "string option \<Rightarrow> int \<Rightarrow> Account list \<Rightarrow> int option \<Rightarrow> int option" where
  "minWaitLoop modelId now [] minWait = minWait"
| "minWaitLoop modelId now (acc # accs) minWait =
     minWaitLoop modelId now accs
       (case accountWait modelId now acc of
          None \<Rightarrow> minWait
        | Some w \<Rightarrow>
            (if w > 0 \<and> (case minWait of None \<Rightarrow> True | Some m \<Rightarrow> w < m) then Some w
             else minWait))"

definition getMinWaitTimeMs :: "Constants \<Rightarrow> Account list \<Rightarrow> string option \<Rightarrow> int \<Rightarrow> int" where
  "getMinWaitTimeMs C accs modelId now =
     (if \<not> isAllRateLimited accs modelId now then 0
      else (case minWaitLoop modelId now accs None of
              None \<Rightarrow> DEFAULT_COOLDOWN_MS C
            | Some m \<Rightarrow> m))"

section \<open>Account selection (\<^verbatim>\<open>selection.ts\<close>)\<close>

text \<open>\<^verbatim>\<open>accounts[i]\<close>: \<^verbatim>\<open>undefined\<close> out of range.\<close>

definition nthOpt :: "'a list \<Rightarrow> nat \<Rightarrow> 'a option" where
  "nthOpt xs i = (if i < length xs then Some (xs ! i) else None)"

fun isAccountUsable :: "Account option \<Rightarrow> string option \<Rightarrow> int \<Rightarrow> bool" where
  "isAccountUsable None modelId now = False"
| "isAccountUsable (Some account) modelId now =
     (if isInvalid account then False
      else if truthy modelId then
        (case map_of (modelRateLimits account) (the modelId) of
           None \<Rightarrow> True
         | Some limit \<Rightarrow> \<not> limitActive now limit)
      else True)"

text \<open>
  The selection functions mutate the account array they are given (expired limits are
  cleared, \<^verbatim>\<open>lastUsed\<close> is set) and may call \<^verbatim>\<open>onSave\<close>. The model returns the array after
  the call and the number of \<^verbatim>\<open>onSave\<close> calls; \<open>onSave\<close> tells whether a callback was passed.
  An index is a \<open>nat\<close>.
\<close>

record AccountSelectionResult =
  sel_accounts :: "Account list"
  account :: "Account option"
  newIndex :: nat
  sel_saves :: nat

record StickyAccountResult = AccountSelectionResult +
  waitMs :: int

record ShouldWaitResult =
  shouldWait :: bool
  sw_waitMs :: int
  sw_account :: "Account option"

definition pickNext ::
  "Account list \<Rightarrow> nat \<Rightarrow> bool \<Rightarrow> string option \<Rightarrow> int \<Rightarrow> AccountSelectionResult" where
  "pickNext accs0 currentIndex onSave modelId now =
     (let accs = fst (clearExpiredLimits accs0 now);
          available = getAvailableAccounts accs modelId now
      in if length available = 0 then
           \<lparr>sel_accounts = accs, account = None, newIndex = currentIndex, sel_saves = 0\<rparr>
         else
           (let index = (if currentIndex \<ge> length accs then 0 else currentIndex)
            in case find (\<lambda>i. isAccountUsable (nthOpt accs ((index + i) mod length accs)) modelId now)
                      [1 ..< Suc (length accs)] of
                 None \<Rightarrow>
                   \<lparr>sel_accounts = accs, account = None, newIndex = currentIndex, sel_saves = 0\<rparr>
               | Some i \<Rightarrow>
                   (let idx = (index + i) mod length accs;
                        acc = (accs ! idx)\<lparr>lastUsed := Some now\<rparr>
                    in \<lparr>sel_accounts = accs[idx := acc], account = Some acc, newIndex = idx,
                        sel_saves = (if onSave then 1 else 0)\<rparr>)))"

definition getCurrentStickyAccount ::
  "Account list \<Rightarrow> nat \<Rightarrow> bool \<Rightarrow> string option \<Rightarrow> int \<Rightarrow> AccountSelectionResult" where
  "getCurrentStickyAccount accs0 currentIndex onSave modelId now =
     (let accs = fst (clearExpiredLimits accs0 now)
      in if length accs = 0 then
           \<lparr>sel_accounts = accs, account = None, newIndex = currentIndex, sel_saves = 0\<rparr>
         else
           (let index = (if currentIndex \<ge> length accs then 0 else currentIndex)
            in if isAccountUsable (nthOpt accs index) modelId now then
                 (let acc = (accs ! index)\<lparr>lastUsed := Some now\<rparr>
                  in \<lparr>sel_accounts = accs[index := acc], account = Some acc, newIndex = index,
                      sel_saves = (if onSave then 1 else 0)\<rparr>)
               else
                 \<lparr>sel_accounts = accs, account = None, newIndex = index, sel_saves = 0\<rparr>))"

text \<open>
  The local \<^verbatim>\<open>waitMs\<close> of \<^verbatim>\<open>shouldWaitForCurrentAccount\<close>: 0, or \<^verbatim>\<open>resetTime - Date.now()\<close>
  when the account holds a limit for the model that is set and has a reset time.
\<close>

definition limitWaitMs :: "string option \<Rightarrow> int \<Rightarrow> Account \<Rightarrow> int" where
  "limitWaitMs modelId now acc = (case accountWait modelId now acc of None \<Rightarrow> 0 | Some d \<Rightarrow> d)"

definition shouldWaitForCurrentAccount ::
  "Constants \<Rightarrow> Account list \<Rightarrow> nat \<Rightarrow> string option \<Rightarrow> int \<Rightarrow> ShouldWaitResult" where
  "shouldWaitForCurrentAccount C accs currentIndex modelId now =
     (if length accs = 0 then \<lparr>shouldWait = False, sw_waitMs = 0, sw_account = None\<rparr>
      else
        (let index = (if currentIndex \<ge> length accs then 0 else currentIndex)
         in case nthOpt accs index of
              None \<Rightarrow> \<lparr>shouldWait = False, sw_waitMs = 0, sw_account = None\<rparr>
            | Some acc \<Rightarrow>
                if isInvalid acc then \<lparr>shouldWait = False, sw_waitMs = 0, sw_account = None\<rparr>
                else
                  (let w = limitWaitMs modelId now acc
                   in if w > 0 \<and> w \<le> MAX_WAIT_BEFORE_ERROR_MS C then
                        \<lparr>shouldWait = True, sw_waitMs = w, sw_account = Some acc\<rparr>
                      else \<lparr>shouldWait = False, sw_waitMs = 0, sw_account = Some acc\<rparr>)))"

text \<open>
  The end of \<^verbatim>\<open>pickStickyAccount\<close>, reached when the sticky account is unusable and no
  failover took place: wait for the sticky account if its reset is near, and call
  \<^verbatim>\<open>pickNext\<close> otherwise. \<open>accs\<close> and \<open>saves\<close> are the account array and the number of
  \<^verbatim>\<open>onSave\<close> calls so far.
\<close>

definition waitOrAdvance ::
  "Constants \<Rightarrow> Account list \<Rightarrow> nat \<Rightarrow> nat \<Rightarrow> bool \<Rightarrow> string option \<Rightarrow> int \<Rightarrow> StickyAccountResult" where
  "waitOrAdvance C accs saves currentIndex onSave modelId now =
     (let waitInfo = shouldWaitForCurrentAccount C accs currentIndex modelId now
      in if shouldWait waitInfo then
           \<lparr>sel_accounts = accs, account = None, newIndex = currentIndex,
            sel_saves = saves, waitMs = sw_waitMs waitInfo\<rparr>
         else
           (let nxt = pickNext accs currentIndex onSave modelId now
            in \<lparr>sel_accounts = sel_accounts nxt, account = account nxt,
                newIndex = newIndex nxt, sel_saves = saves + sel_saves nxt, waitMs = 0\<rparr>))"

definition pickStickyAccount ::
  "Constants \<Rightarrow> Account list \<Rightarrow> nat \<Rightarrow> bool \<Rightarrow> string option \<Rightarrow> int \<Rightarrow> StickyAccountResult" where
  "pickStickyAccount C accs0 currentIndex onSave modelId now =
     (let sticky = getCurrentStickyAccount accs0 currentIndex onSave modelId now;
          accs1 = sel_accounts sticky
      in if account sticky \<noteq> None then
           \<lparr>sel_accounts = accs1, account = account sticky, newIndex = newIndex sticky,
            sel_saves = sel_saves sticky, waitMs = 0\<rparr>
         else
           (let available = getAvailableAccounts accs1 modelId now
            in if length available > 0 then
                 (let nxt = pickNext accs1 currentIndex onSave modelId now
                  in if account nxt \<noteq> None then
                       \<lparr>sel_accounts = sel_accounts nxt, account = account nxt,
                        newIndex = newIndex nxt, sel_saves = sel_saves sticky + sel_saves nxt,
                        waitMs = 0\<rparr>
                     else
                       waitOrAdvance C (sel_accounts nxt) (sel_saves sticky + sel_saves nxt)
                         currentIndex onSave modelId now)
               else waitOrAdvance C accs1 (sel_saves sticky) currentIndex onSave modelId now))"

section \<open>Persistence (\<^verbatim>\<open>storage.ts\<close>)\<close>

text \<open>
  \<^verbatim>\<open>AccountConfig\<close>, the content of the configuration file after \<^verbatim>\<open>JSON.parse\<close>. Every
  top-level key is optional; \<open>config_extra\<close> holds the top-level keys the core does not
  know. An account of the file is an \<^typ>\<open>Account\<close> whose \<open>extra\<close> holds its unknown keys.
  \<^verbatim>\<open>JSON.stringify\<close> followed by \<^verbatim>\<open>JSON.parse\<close> is taken to give back the object written,
  without the properties whose value is \<^verbatim>\<open>undefined\<close>.
\<close>

record AccountConfig =
  accounts :: "Account list option"
  settings :: "AccountSettings option"
  activeIndex :: "nat option"
  config_extra :: "(string \<times> jval) list"

text \<open>What \<^verbatim>\<open>access\<close>, \<^verbatim>\<open>readFile\<close> and \<^verbatim>\<open>JSON.parse\<close> find at the configuration path.\<close>

datatype FileState = Missing | Unreadable | Parsed AccountConfig

definition emptySettings :: AccountSettings where
  "emptySettings = \<lparr>cooldownDurationMs = None, settings_extra = []\<rparr>"

text \<open>\<^verbatim>\<open>loadAccounts\<close> returns \<^verbatim>\<open>{ accounts, settings, activeIndex }\<close>.\<close>

fun loadAccounts :: "FileState \<Rightarrow> Account list \<times> AccountSettings \<times> nat" where
  "loadAccounts (Parsed config) =
     (let accs = map (\<lambda>acc. acc\<lparr>lastUsed := lastUsed acc, isInvalid := False,
                                 invalidReason := None,
                                 modelRateLimits := modelRateLimits acc\<rparr>)
                     (case accounts config of None \<Rightarrow> [] | Some as \<Rightarrow> as);
          sett = (case settings config of None \<Rightarrow> emptySettings | Some s \<Rightarrow> s);
          idx = (case activeIndex config of None \<Rightarrow> 0 | Some i \<Rightarrow> i)
      in (accs, sett, if idx \<ge> length accs then 0 else idx))"
| "loadAccounts Missing = ([], emptySettings, 0)"
| "loadAccounts Unreadable = ([], emptySettings, 0)"

text \<open>
  \<^verbatim>\<open>saveAccounts\<close> writes a new object per account, built from the listed fields. The
  first argument is the file before the call and \<open>ioOk\<close> tells whether \<^verbatim>\<open>mkdir\<close> and
  \<^verbatim>\<open>writeFile\<close> succeed: a failure is caught and logged, and the file stays as it was.
\<close>

definition savedAccount :: "Account \<Rightarrow> Account" where
  "savedAccount acc =
     \<lparr>email = email acc,
      source = source acc,
      dbPath = dbPath acc,
      refreshToken = (if source acc = Some ''oauth'' then refreshToken acc else None),
      apiKey = (if source acc = Some ''manual'' then apiKey acc else None),
      projectId = projectId acc,
      addedAt = addedAt acc,
      isInvalid = isInvalid acc,
      invalidReason = invalidReason acc,
      invalidAt = None,
      modelRateLimits = modelRateLimits acc,
      lastUsed = lastUsed acc,
      extra = []\<rparr>"

definition saveAccounts ::
  "FileState \<Rightarrow> bool \<Rightarrow> Account list \<Rightarrow> AccountSettings \<Rightarrow> nat \<Rightarrow> FileState" where
  "saveAccounts old ioOk accs sett idx =
     (if ioOk then
        Parsed \<lparr>accounts = Some (map savedAccount accs), settings = Some sett,
                activeIndex = Some idx, config_extra = []\<rparr>
      else old)"

section \<open>Credentials (\<^verbatim>\<open>credentials.ts\<close>)\<close>

text \<open>A JavaScript \<^verbatim>\<open>Error\<close>: its message and, for system errors, its \<^verbatim>\<open>code\<close>.\<close>

record JsError =
  message :: string
  code :: "string option"

definition newError :: "string \<Rightarrow> JsError" where
  "newError msg = \<lparr>message = msg, code = None\<rparr>"

record TokenCacheEntry =
  token :: string
  extractedAt :: int




section \<open>The \<^verbatim>\<open>AccountManager\<close> class\<close>

text \<open>
  The private fields \<^verbatim>\<open>#accounts\<close>, \<^verbatim>\<open>#currentIndex\<close>, \<^verbatim>\<open>#settings\<close>, \<^verbatim>\<open>#tokenCache\<close> and
  \<^verbatim>\<open>#projectCache\<close>. \<open>am_saves\<close> counts the calls of \<^verbatim>\<open>saveToDisk\<close>, which writes the file
  in the background.
\<close>

record AccountManager =
  am_accounts :: "Account list"
  am_currentIndex :: nat
  am_settings :: AccountSettings
  am_tokenCache :: "(string \<times> TokenCacheEntry) list"
  am_projectCache :: "(string \<times> string) list"
  am_saves :: nat

definition saveToDisk :: "AccountManager \<Rightarrow> AccountManager" where
  "saveToDisk am = am\<lparr>am_saves := Suc (am_saves am)\<rparr>"

definition AccountManager_getAccountCount :: "AccountManager \<Rightarrow> nat" where
  "AccountManager_getAccountCount am = length (am_accounts am)"

definition AccountManager_isAllRateLimited :: "AccountManager \<Rightarrow> string option \<Rightarrow> int \<Rightarrow> bool" where
  "AccountManager_isAllRateLimited am modelId now = isAllRateLimited (am_accounts am) modelId now"

definition AccountManager_clearExpiredLimits :: "AccountManager \<Rightarrow> int \<Rightarrow> AccountManager \<times> nat" where
  "AccountManager_clearExpiredLimits am now =
     (let (accs, cleared) = clearExpiredLimits (am_accounts am) now;
          am1 = am\<lparr>am_accounts := accs\<rparr>
      in (if cleared > 0 then saveToDisk am1 else am1, cleared))"

text \<open>
  The selection methods pass \<^verbatim>\<open>() => this.saveToDisk()\<close> as \<^verbatim>\<open>onSave\<close> and store the new index;
  they return the account selected.
\<close>

definition applySelection :: "AccountManager \<Rightarrow> 'a AccountSelectionResult_scheme \<Rightarrow> AccountManager" where
  "applySelection am r =
     am\<lparr>am_accounts := sel_accounts r, am_currentIndex := newIndex r,
        am_saves := am_saves am + sel_saves r\<rparr>"

definition AccountManager_pickNext ::
  "AccountManager \<Rightarrow> string option \<Rightarrow> int \<Rightarrow> AccountManager \<times> Account option" where
  "AccountManager_pickNext am modelId now =
     (let r = pickNext (am_accounts am) (am_currentIndex am) True modelId now
      in (applySelection am r, account r))"

definition AccountManager_getCurrentStickyAccount ::
  "AccountManager \<Rightarrow> string option \<Rightarrow> int \<Rightarrow> AccountManager \<times> Account option" where
  "AccountManager_getCurrentStickyAccount am modelId now =
     (let r = getCurrentStickyAccount (am_accounts am) (am_currentIndex am) True modelId now
      in (applySelection am r, account r))"

definition AccountManager_pickStickyAccount ::
  "Constants \<Rightarrow> AccountManager \<Rightarrow> string option \<Rightarrow> int
     \<Rightarrow> AccountManager \<times> Account option \<times> int" where
  "AccountManager_pickStickyAccount C am modelId now =
     (let r = pickStickyAccount C (am_accounts am) (am_currentIndex am) True modelId now
      in (applySelection am r, account r, waitMs r))"

definition AccountManager_markRateLimited ::
  "Constants \<Rightarrow> AccountManager \<Rightarrow> string \<Rightarrow> int option \<Rightarrow> string option \<Rightarrow> int \<Rightarrow> AccountManager" where
  "AccountManager_markRateLimited C am e resetMs modelId now =
     (if truthy modelId then
        saveToDisk (am\<lparr>am_accounts :=
          fst (markRateLimited C (am_accounts am) e resetMs (am_settings am) (the modelId) now)\<rparr>)
      else am)"


definition AccountManager_getMinWaitTimeMs ::
  "Constants \<Rightarrow> AccountManager \<Rightarrow> string option \<Rightarrow> int \<Rightarrow> int" where
  "AccountManager_getMinWaitTimeMs C am modelId now = getMinWaitTimeMs C (am_accounts am) modelId now"



section \<open>Google responses and Anthropic events (\<^verbatim>\<open>sse-streamer.ts\<close>)\<close>

text \<open>
  The shape \<^verbatim>\<open>GoogleResponse\<close> that a parsed \<^verbatim>\<open>data:\<close> line is cast to; a part has the
  optional fields of \<^verbatim>\<open>ParsedPart\<close> in \<^verbatim>\<open>sse-parser.ts\<close>. An optional property is an
  \<open>option\<close>, and \<^verbatim>\<open>"k" in part\<close> holds when the field is not \<open>None\<close>.
\<close>

record FunctionCall =
  fc_id :: "string option"
  fc_name :: string
  fc_args :: "jval option"

record Part =
  thought :: "bool option"
  partText :: "string option"
  thoughtSignature :: "string option"
  functionCall :: "FunctionCall option"

record Content =
  parts :: "Part list option"

record Candidate =
  content :: "Content option"
  finishReason :: "string option"

record UsageMetadata =
  promptTokenCount :: "int option"
  candidatesTokenCount :: "int option"
  cachedContentTokenCount :: "int option"

record InnerResponse =
  usageMetadata :: "UsageMetadata option"
  candidates :: "Candidate list option"

text \<open>The outer object may wrap the response in a \<^verbatim>\<open>response\<close> property.\<close>

record GoogleResponse = InnerResponse +
  response :: "InnerResponse option"

datatype BlockType = Thinking | Text | ToolUse

text \<open>
  A \<^verbatim>\<open>tool_use\<close> content block has an id, a name, the input \<^verbatim>\<open>{}\<close> and, when the part
  carries a signature that is long enough, a \<^verbatim>\<open>thoughtSignature\<close>.
\<close>

datatype ContentBlock =
    ThinkingBlock string
  | TextBlock string
  | ToolUseBlock string string "string option"

datatype Delta =
    ThinkingDelta string
  | SignatureDelta string
  | TextDelta string
  | InputJsonDelta string

text \<open>
  \<^verbatim>\<open>message_start\<close> carries the message id, the model and \<^verbatim>\<open>usage.input_tokens\<close> and
  \<^verbatim>\<open>usage.cache_read_input_tokens\<close> (its \<^verbatim>\<open>output_tokens\<close> and
  \<^verbatim>\<open>cache_creation_input_tokens\<close> are the literal 0); \<^verbatim>\<open>message_delta\<close> carries the stop
  reason, \<^verbatim>\<open>usage.output_tokens\<close> and \<^verbatim>\<open>usage.cache_read_input_tokens\<close>.
\<close>

datatype AnthropicSSEEvent =
    MessageStart string string int int
  | ContentBlockStart nat ContentBlock
  | ContentBlockDelta nat Delta
  | ContentBlockStop nat
  | MessageDelta string int int
  | MessageStop

text \<open>
  What the streamer calls outside itself: \<^verbatim>\<open>JSON.parse\<close> with the cast to
  \<^verbatim>\<open>GoogleResponse\<close> (\<open>None\<close> when it throws), \<^verbatim>\<open>JSON.stringify\<close>, and the two random
  identifiers: the message id and the id of a tool-use block whose part has none (given
  the index of the block). The writes to the signature cache do not show in the events
  and are left out.
\<close>

record SseEnv =
  parseJson :: "string \<Rightarrow> GoogleResponse option"
  stringify :: "jval \<Rightarrow> string"
  messageId :: string
  newToolId :: "nat \<Rightarrow> string"

text \<open>
  The local variables of \<^verbatim>\<open>streamSSEResponse\<close> that the translation reads and writes.
  The line \<^verbatim>\<open>buffer\<close> is an argument of its own of the chunk loop.
\<close>

record StreamState =
  hasEmittedStart :: bool
  blockIndex :: nat
  currentBlockType :: "BlockType option"
  currentThinkingSignature :: string
  inputTokens :: int
  outputTokens :: int
  cacheReadTokens :: int
  stopReason :: string

definition initialStreamState :: StreamState where
  "initialStreamState =
     \<lparr>hasEmittedStart = False, blockIndex = 0, currentBlockType = None,
      currentThinkingSignature = [], inputTokens = 0, outputTokens = 0, cacheReadTokens = 0,
      stopReason = ''end_turn''\<rparr>"

text \<open>
  \<^verbatim>\<open>String.prototype.trim\<close>, on the ASCII white space the 8-bit characters of the model
  can hold.
\<close>

definition isSpace :: "char \<Rightarrow> bool" where
  "isSpace c = (c \<in> set [CHR 0x09, CHR 0x0A, CHR 0x0B, CHR 0x0C, CHR 0x0D, CHR '' ''])"

definition trim :: "string \<Rightarrow> string" where
  "trim s = rev (dropWhile isSpace (rev (dropWhile isSpace s)))"

text \<open>\<^verbatim>\<open>s.split("\n")\<close>: never empty; the last element is what follows the last newline.\<close>

fun splitOn :: "char \<Rightarrow> string \<Rightarrow> string list" where
  "splitOn c [] = [[]]"
| "splitOn c (x # xs) =
     (if x = c then [] # splitOn c xs
      else (case splitOn c xs of
              [] \<Rightarrow> [[x]]
            | l # ls \<Rightarrow> (x # l) # ls))"

definition startsWith :: "string \<Rightarrow> string \<Rightarrow> bool" where
  "startsWith s p = (take (length p) s = p)"

text \<open>
  Two fragments that the source repeats: the pending signature is flushed when a thinking
  block is left, and an open block is stopped with the index incremented.
\<close>

definition flushSignature :: "StreamState \<Rightarrow> StreamState \<times> AnthropicSSEEvent list" where
  "flushSignature st =
     (if currentBlockType st = Some Thinking \<and> currentThinkingSignature st \<noteq> [] then
        (st\<lparr>currentThinkingSignature := []\<rparr>,
         [ContentBlockDelta (blockIndex st) (SignatureDelta (currentThinkingSignature st))])
      else (st, []))"

definition closeBlock :: "StreamState \<Rightarrow> StreamState \<times> AnthropicSSEEvent list" where
  "closeBlock st =
     (if currentBlockType st \<noteq> None then
        (st\<lparr>blockIndex := Suc (blockIndex st)\<rparr>, [ContentBlockStop (blockIndex st)])
      else (st, []))"

definition processPart ::
  "Constants \<Rightarrow> SseEnv \<Rightarrow> StreamState \<Rightarrow> Part \<Rightarrow> StreamState \<times> AnthropicSSEEvent list" where
  "processPart C E st part =
     (if thought part = Some True \<and> partText part \<noteq> None then
        (let txt = the (partText part);
             signature = (case thoughtSignature part of None \<Rightarrow> [] | Some s \<Rightarrow> s);
             (st1, ev1) =
               (if currentBlockType st \<noteq> Some Thinking then
                  (let (sa, ea) = closeBlock st;
                       sb = sa\<lparr>currentBlockType := Some Thinking, currentThinkingSignature := []\<rparr>
                   in (sb, ea @ [ContentBlockStart (blockIndex sb) (ThinkingBlock [])]))
                else (st, []));
             st2 = (if signature \<noteq> [] \<and> length signature \<ge> MIN_SIGNATURE_LENGTH C
                    then st1\<lparr>currentThinkingSignature := signature\<rparr> else st1)
         in (st2, ev1 @ [ContentBlockDelta (blockIndex st2) (ThinkingDelta txt)]))
      else if partText part \<noteq> None \<and> \<not> (thought part = Some True) then
        (let txt = the (partText part)
         in if txt = [] \<or> length (trim txt) = 0 then (st, [])
            else
              (let (st1, ev1) =
                     (if currentBlockType st \<noteq> Some Text then
                        (let (sa, ea) = flushSignature st;
                             (sb, eb) = closeBlock sa;
                             sc = sb\<lparr>currentBlockType := Some Text\<rparr>
                         in (sc, ea @ eb @ [ContentBlockStart (blockIndex sc) (TextBlock [])]))
                      else (st, []))
               in (st1, ev1 @ [ContentBlockDelta (blockIndex st1) (TextDelta txt)])))
      else if functionCall part \<noteq> None then
        (let fc = the (functionCall part);
             functionCallSignature = (case thoughtSignature part of None \<Rightarrow> [] | Some s \<Rightarrow> s);
             (sa, ea) = flushSignature st;
             (sb, eb) = closeBlock sa;
             sc = sb\<lparr>currentBlockType := Some ToolUse, stopReason := ''tool_use''\<rparr>;
             toolId = (case fc_id fc of None \<Rightarrow> newToolId E (blockIndex sc) | Some i \<Rightarrow> i);
             toolUseBlock =
               ToolUseBlock toolId (fc_name fc)
                 (if functionCallSignature \<noteq> [] \<and>
                     length functionCallSignature \<ge> MIN_SIGNATURE_LENGTH C
                  then Some functionCallSignature else None)
         in (sc, ea @ eb @
                 [ContentBlockStart (blockIndex sc) toolUseBlock,
                  ContentBlockDelta (blockIndex sc)
                    (InputJsonDelta (stringify E (case fc_args fc of None \<Rightarrow> JObj [] | Some a \<Rightarrow> a)))]))
      else (st, []))"

fun processParts ::
  "Constants \<Rightarrow> SseEnv \<Rightarrow> StreamState \<Rightarrow> Part list \<Rightarrow> StreamState \<times> AnthropicSSEEvent list" where
  "processParts C E st [] = (st, [])"
| "processParts C E st (p # ps) =
     (let (st1, ev1) = processPart C E st p;
          (st2, ev2) = processParts C E st1 ps
      in (st2, ev1 @ ev2))"

text \<open>
  \<^verbatim>\<open>data.response ?? data\<close>, \<^verbatim>\<open>candidates[0]\<close> and
  \<^verbatim>\<open>(firstCandidate?.content ?? {}).parts ?? []\<close>.
\<close>

definition innerResponseOf :: "GoogleResponse \<Rightarrow> InnerResponse" where
  "innerResponseOf dat = (case response dat of None \<Rightarrow> InnerResponse.truncate dat | Some r \<Rightarrow> r)"

definition firstCandidateOf :: "InnerResponse \<Rightarrow> Candidate option" where
  "firstCandidateOf innerResponse =
     nthOpt (case candidates innerResponse of None \<Rightarrow> [] | Some cs \<Rightarrow> cs) 0"

definition partsOf :: "InnerResponse \<Rightarrow> Part list" where
  "partsOf innerResponse =
     (case firstCandidateOf innerResponse of
        None \<Rightarrow> []
      | Some c \<Rightarrow>
          (case content c of
             None \<Rightarrow> []
           | Some k \<Rightarrow> (case parts k of None \<Rightarrow> [] | Some l \<Rightarrow> l)))"

text \<open>
  The body of the \<^verbatim>\<open>try\<close> block, for one parsed \<^verbatim>\<open>data:\<close> line, in its four steps: the
  usage counts are taken over (a count that is absent keeps the value seen before),
  \<^verbatim>\<open>message_start\<close> is emitted on the first line that has parts, the parts are processed,
  and the finish reason sets the stop reason.
\<close>

definition updateUsage :: "StreamState \<Rightarrow> InnerResponse \<Rightarrow> StreamState" where
  "updateUsage st innerResponse =
     (case usageMetadata innerResponse of
        None \<Rightarrow> st
      | Some usage \<Rightarrow>
          st\<lparr>inputTokens := (case promptTokenCount usage of None \<Rightarrow> inputTokens st | Some n \<Rightarrow> n),
             outputTokens := (case candidatesTokenCount usage of None \<Rightarrow> outputTokens st | Some n \<Rightarrow> n),
             cacheReadTokens := (case cachedContentTokenCount usage of None \<Rightarrow> cacheReadTokens st | Some n \<Rightarrow> n)\<rparr>)"

definition emitStart ::
  "SseEnv \<Rightarrow> string \<Rightarrow> StreamState \<Rightarrow> Part list \<Rightarrow> StreamState \<times> AnthropicSSEEvent list" where
  "emitStart E originalModel st ps =
     (if \<not> hasEmittedStart st \<and> length ps > 0 then
        (st\<lparr>hasEmittedStart := True\<rparr>,
         [MessageStart (messageId E) originalModel
            (inputTokens st - cacheReadTokens st) (cacheReadTokens st)])
      else (st, []))"

definition updateStopReason :: "StreamState \<Rightarrow> Candidate option \<Rightarrow> StreamState" where
  "updateStopReason st firstCandidate =
     (case firstCandidate of
        None \<Rightarrow> st
      | Some c \<Rightarrow>
          (if truthy (finishReason c) then
             (if finishReason c = Some ''MAX_TOKENS'' then st\<lparr>stopReason := ''max_tokens''\<rparr>
              else if finishReason c = Some ''STOP'' then st\<lparr>stopReason := ''end_turn''\<rparr>
              else st)
           else st))"

definition processData ::
  "Constants \<Rightarrow> SseEnv \<Rightarrow> string \<Rightarrow> StreamState \<Rightarrow> GoogleResponse \<Rightarrow> StreamState \<times> AnthropicSSEEvent list" where
  "processData C E originalModel st0 dat =
     (let innerResponse = innerResponseOf dat;
          st1 = updateUsage st0 innerResponse;
          ps = partsOf innerResponse;
          (st2, ev2) = emitStart E originalModel st1 ps;
          (st3, ev3) = processParts C E st2 ps;
          st4 = updateStopReason st3 (firstCandidateOf innerResponse)
      in (st4, ev2 @ ev3))"

text \<open>
  What a line gives to the \<^verbatim>\<open>try\<close> block: nothing when it does not start with
  \<^verbatim>\<open>data:\<close>, when the rest is blank or when \<^verbatim>\<open>JSON.parse\<close> throws.
\<close>

definition lineData :: "SseEnv \<Rightarrow> string \<Rightarrow> GoogleResponse option" where
  "lineData E line =
     (if \<not> startsWith line ''data:'' then None
      else
        (let jsonText = trim (drop 5 line)
         in if jsonText = [] then None else parseJson E jsonText))"

definition lineParts :: "SseEnv \<Rightarrow> string \<Rightarrow> Part list" where
  "lineParts E line = (case lineData E line of None \<Rightarrow> [] | Some dat \<Rightarrow> partsOf (innerResponseOf dat))"

definition processLine ::
  "Constants \<Rightarrow> SseEnv \<Rightarrow> string \<Rightarrow> StreamState \<Rightarrow> string \<Rightarrow> StreamState \<times> AnthropicSSEEvent list" where
  "processLine C E originalModel st line =
     (case lineData E line of
        None \<Rightarrow> (st, [])
      | Some dat \<Rightarrow> processData C E originalModel st dat)"

fun processLines ::
  "Constants \<Rightarrow> SseEnv \<Rightarrow> string \<Rightarrow> StreamState \<Rightarrow> string list \<Rightarrow> StreamState \<times> AnthropicSSEEvent list" where
  "processLines C E originalModel st [] = (st, [])"
| "processLines C E originalModel st (l # ls) =
     (let (st1, ev1) = processLine C E originalModel st l;
          (st2, ev2) = processLines C E originalModel st1 ls
      in (st2, ev1 @ ev2))"

text \<open>
  The \<^verbatim>\<open>while (true)\<close> loop, one chunk per turn: the chunk is appended to the buffer, the
  buffer is split at the newlines, the last piece is the new buffer and the pieces before
  it are processed. What is left in the buffer when the body ends is never processed.
\<close>

fun processChunks ::
  "Constants \<Rightarrow> SseEnv \<Rightarrow> string \<Rightarrow> StreamState \<Rightarrow> string \<Rightarrow> string list
     \<Rightarrow> StreamState \<times> AnthropicSSEEvent list" where
  "processChunks C E originalModel st buffer [] = (st, [])"
| "processChunks C E originalModel st buffer (chunk # chunks) =
     (let lines = splitOn (CHR 0x0A) (buffer @ chunk);
          (st1, ev1) = processLines C E originalModel st (butlast lines);
          (st2, ev2) = processChunks C E originalModel st1 (last lines) chunks
      in (st2, ev1 @ ev2))"

text \<open>The lines that the loop processes, in order, for a buffer and the chunks to come.\<close>

fun chunkLines :: "string \<Rightarrow> string list \<Rightarrow> string list" where
  "chunkLines buffer [] = []"
| "chunkLines buffer (chunk # chunks) =
     (let lines = splitOn (CHR 0x0A) (buffer @ chunk)
      in butlast lines @ chunkLines (last lines) chunks)"

text \<open>What follows the loop, once the body is read to its end.\<close>

definition finishStream :: "SseEnv \<Rightarrow> string \<Rightarrow> StreamState \<Rightarrow> AnthropicSSEEvent list" where
  "finishStream E originalModel st =
     (if \<not> hasEmittedStart st then
        [MessageStart (messageId E) originalModel
           (inputTokens st - cacheReadTokens st) (cacheReadTokens st),
         ContentBlockStart 0 (TextBlock []),
         ContentBlockDelta 0 (TextDelta ''[No response received from API]''),
         ContentBlockStop 0]
      else if currentBlockType st \<noteq> None then
        (if currentBlockType st = Some Thinking \<and> currentThinkingSignature st \<noteq> [] then
           [ContentBlockDelta (blockIndex st) (SignatureDelta (currentThinkingSignature st))]
         else [])
        @ [ContentBlockStop (blockIndex st)]
      else [])
     @ [MessageDelta (stopReason st) (outputTokens st) (cacheReadTokens st), MessageStop]"

text \<open>
  \<^verbatim>\<open>streamSSEResponse\<close>: the events yielded, in order, for a body that delivers the given
  chunks (already decoded) and then ends.
\<close>

definition streamSSEResponse ::
  "Constants \<Rightarrow> SseEnv \<Rightarrow> string list \<Rightarrow> string \<Rightarrow> AnthropicSSEEvent list" where
  "streamSSEResponse C E chunks originalModel =
     (let (st, evs) = processChunks C E originalModel initialStreamState [] chunks
      in evs @ finishStream E originalModel st)"

section \<open>OpenAI response conversion (\<^verbatim>\<open>openai-response-converter.js\<close>)\<close>

text \<open>
  The Anthropic-format response that \<^verbatim>\<open>convertToOpenAI\<close> reads: content blocks by their
  \<^verbatim>\<open>type\<close>, the stop reason and the usage. A block of another type is \<open>OtherBlock\<close>.
\<close>

datatype ResponseBlock =
    RText "string option"
  | RThinking
  | RToolUse "string option" string "jval option"
  | OtherBlock

record AnthropicUsage =
  input_tokens :: "int option"
  output_tokens :: "int option"
  cache_read_input_tokens :: "int option"

record AnthropicResponse =
  resp_content :: "ResponseBlock list option"
  stop_reason :: "string option"
  usage :: "AnthropicUsage option"








section \<open>The dispatcher (\<^verbatim>\<open>message-handler.ts\<close>, \<^verbatim>\<open>streaming-handler.ts\<close>)\<close>

text \<open>
  \<^verbatim>\<open>sendMessage\<close> and \<^verbatim>\<open>sendMessageStream\<close> run the same retry loop around a different
  \<^verbatim>\<open>try\<close> block. The state they act on is the account manager and the clock; \<^verbatim>\<open>sleep(ms)\<close>
  advances the clock by \<open>ms\<close>. The loop returns, with its result, the trace of what it did:
  every sleep of the loop itself, every account handed to the \<^verbatim>\<open>try\<close> block and every
  substitution of the fallback model.
\<close>

record World =
  accountManager :: AccountManager
  clock :: int

datatype DispatchEvent =
    Slept int
  | Attempted string
  | FellBack string string

definition sleep :: "int \<Rightarrow> World \<Rightarrow> World" where
  "sleep ms w = w\<lparr>clock := clock w + max 0 ms\<rparr>"

text \<open>
  How the \<^verbatim>\<open>try\<close> block of one attempt ends: it returns from the function, it throws, or it
  runs to its end (every endpoint answered 401) and the loop goes on.
\<close>

datatype 'r TryResult = Returned 'r | Threw JsError | FellThrough

text \<open>
  What the loop calls outside itself. \<open>tryAccount\<close> is the \<^verbatim>\<open>try\<close> block (token, project,
  payload and the requests to the endpoints) for the attempt number, the account and the
  model: it gives the events yielded meanwhile, how the block ends, and the state it
  leaves; it may change the state in any way. The others are \<^verbatim>\<open>isRateLimitError\<close> and
  \<^verbatim>\<open>isAuthError\<close> (\<^verbatim>\<open>errors.ts\<close>), \<^verbatim>\<open>isNetworkError\<close> and \<^verbatim>\<open>formatDuration\<close>
  (\<^verbatim>\<open>utils/helpers.ts\<close>), \<^verbatim>\<open>getFallbackModel\<close> (\<^verbatim>\<open>fallback-config.ts\<close>) and
  \<^verbatim>\<open>Date.prototype.toISOString\<close>.
\<close>

record ('y, 'r) DispatchEnv =
  tryAccount :: "nat \<Rightarrow> Account \<Rightarrow> string \<Rightarrow> World \<Rightarrow> ('y list \<times> 'r TryResult) \<times> World"
  isRateLimitError :: "JsError \<Rightarrow> bool"
  isAuthError :: "JsError \<Rightarrow> bool"
  isNetworkErr :: "JsError \<Rightarrow> bool"
  getFallbackModel :: "string \<Rightarrow> string option"
  formatDuration :: "int \<Rightarrow> string"
  toISOString :: "int \<Rightarrow> string"

text \<open>\<^verbatim>\<open>s.includes(p)\<close>.\<close>

definition includesStr :: "string \<Rightarrow> string \<Rightarrow> bool" where
  "includesStr s p = list_ex (\<lambda>i. startsWith (drop i s) p) [0 ..< Suc (length s)]"

text \<open>
  The head of one turn of the loop, down to the test \<^verbatim>\<open>if (!account)\<close> that guards the
  fallback: the account to use if there is one, or the \<^verbatim>\<open>RESOURCE_EXHAUSTED\<close> error thrown.
\<close>

datatype Selected = Proceed Account | NoAccount | Exhausted JsError

definition resourceExhausted :: "('y, 'r) DispatchEnv \<Rightarrow> string \<Rightarrow> int \<Rightarrow> int \<Rightarrow> JsError" where
  "resourceExhausted E model allWaitMs now =
     newError (''RESOURCE_EXHAUSTED: Rate limited on '' @ model @ ''. Quota will reset after ''
               @ formatDuration E allWaitMs @ ''. Next available: ''
               @ toISOString E (now + allWaitMs))"

definition selectForAttempt ::
  "Constants \<Rightarrow> ('y, 'r) DispatchEnv \<Rightarrow> string \<Rightarrow> World \<Rightarrow> Selected \<times> World \<times> DispatchEvent list" where
  "selectForAttempt C E model w0 =
     (let (am1, stickyAccount, waitMs) =
            AccountManager_pickStickyAccount C (accountManager w0) (Some model) (clock w0);
          w1 = w0\<lparr>accountManager := am1\<rparr>;
          (acc2, w2, tr2) =
            (if stickyAccount = None \<and> waitMs > 0 then
               (let wa = sleep waitMs w1;
                    (ama, cleared) = AccountManager_clearExpiredLimits (accountManager wa) (clock wa);
                    (amb, a) = AccountManager_getCurrentStickyAccount ama (Some model) (clock wa)
                in (a, wa\<lparr>accountManager := amb\<rparr>, [Slept waitMs]))
             else (stickyAccount, w1, []))
      in case acc2 of
           Some a \<Rightarrow> (Proceed a, w2, tr2)
         | None \<Rightarrow>
             if AccountManager_isAllRateLimited (accountManager w2) (Some model) (clock w2) then
               (let allWaitMs = AccountManager_getMinWaitTimeMs C (accountManager w2) (Some model) (clock w2)
                in if allWaitMs > MAX_WAIT_BEFORE_ERROR_MS C then
                     (Exhausted (resourceExhausted E model allWaitMs (clock w2)), w2, tr2)
                   else
                     (let wa = sleep allWaitMs w2;
                          (ama, cleared) = AccountManager_clearExpiredLimits (accountManager wa) (clock wa);
                          (amb, a) = AccountManager_pickNext ama (Some model) (clock wa)
                      in ((case a of None \<Rightarrow> NoAccount | Some x \<Rightarrow> Proceed x),
                          wa\<lparr>accountManager := amb\<rparr>, tr2 @ [Slept allWaitMs])))
             else (NoAccount, w2, tr2))"

text \<open>
  The \<^verbatim>\<open>catch\<close> block of one attempt, with what comes before it when the \<^verbatim>\<open>try\<close> block
  does not throw: \<open>None\<close> is \<^verbatim>\<open>continue\<close>, \<open>Some\<close> ends the function with a result or an error.
\<close>

definition afterTry ::
  "('y, 'r) DispatchEnv \<Rightarrow> string \<Rightarrow> 'r TryResult \<Rightarrow> World
     \<Rightarrow> (JsError + 'r) option \<times> World \<times> DispatchEvent list" where
  "afterTry E model res w =
     (case res of
        Returned r \<Rightarrow> (Some (Inr r), w, [])
      | FellThrough \<Rightarrow> (None, w, [])
      | Threw err \<Rightarrow>
          if isRateLimitError E err then (None, w, [])
          else if isAuthError E err then (None, w, [])
          else if includesStr (message err) ''API error 5'' \<or> includesStr (message err) ''500''
                  \<or> includesStr (message err) ''503'' then
            (None, w\<lparr>accountManager := fst (AccountManager_pickNext (accountManager w) (Some model) (clock w))\<rparr>, [])
          else if isNetworkErr E err then
            (let wa = sleep 1000 w
             in (None, wa\<lparr>accountManager := fst (AccountManager_pickNext (accountManager wa) (Some model) (clock wa))\<rparr>,
                 [Slept 1000]))
          else (Some (Inl err), w, []))"

definition maxAttempts :: "Constants \<Rightarrow> World \<Rightarrow> nat" where
  "maxAttempts C w = max (MAX_RETRIES C) (AccountManager_getAccountCount (accountManager w) + 1)"

text \<open>
  The \<^verbatim>\<open>for\<close> loop from a given attempt on, with the recursive call for the fallback model.
  The result is the events yielded, the value returned or the error thrown, the state
  left, and the trace.
\<close>

function attemptLoop ::
  "Constants \<Rightarrow> ('y, 'r) DispatchEnv \<Rightarrow> bool \<Rightarrow> string \<Rightarrow> nat \<Rightarrow> nat \<Rightarrow> World
     \<Rightarrow> 'y list \<times> (JsError + 'r) \<times> World \<times> DispatchEvent list" where
  "attemptLoop C E fallbackEnabled model maxA attempt w =
     (if attempt < maxA then
        (case selectForAttempt C E model w of
           (Exhausted err, w1, tr1) \<Rightarrow> ([], Inl err, w1, tr1)
         | (NoAccount, w1, tr1) \<Rightarrow>
             if fallbackEnabled then
               (case getFallbackModel E model of
                  None \<Rightarrow> ([], Inl (newError ''No accounts available''), w1, tr1)
                | Some fallbackModel \<Rightarrow>
                    if fallbackModel = [] then
                      ([], Inl (newError ''No accounts available''), w1, tr1)
                    else
                      (case attemptLoop C E False fallbackModel (maxAttempts C w1) 0 w1 of
                         (ys, out, w2, tr2) \<Rightarrow>
                           (ys, out, w2, tr1 @ FellBack model fallbackModel # tr2)))
             else ([], Inl (newError ''No accounts available''), w1, tr1)
         | (Proceed acc, w1, tr1) \<Rightarrow>
             (case tryAccount E attempt acc model w1 of
                ((ys, res), w2) \<Rightarrow>
                  (case afterTry E model res w2 of
                     (Some out, w3, tr3) \<Rightarrow> (ys, out, w3, tr1 @ Attempted (email acc) # tr3)
                   | (None, w3, tr3) \<Rightarrow>
                       (case attemptLoop C E fallbackEnabled model maxA (Suc attempt) w3 of
                          (ys', out, w4, tr4) \<Rightarrow>
                            (ys @ ys', out, w4, tr1 @ Attempted (email acc) # tr3 @ tr4)))))
      else ([], Inl (newError ''Max retries exceeded''), w, []))"
  by pat_completeness auto
termination
  by (relation "measures [\<lambda>(C, E, fb, model, maxA, attempt, w). if fb then 1 else 0,
                           \<lambda>(C, E, fb, model, maxA, attempt, w). maxA - attempt]") auto

text \<open>
  \<^verbatim>\<open>sendMessage\<close> returns the response or throws; its \<^verbatim>\<open>try\<close> block yields nothing.
  \<^verbatim>\<open>sendMessageStream\<close> yields events and returns nothing.
\<close>

definition sendMessage ::
  "Constants \<Rightarrow> ('y, 'r) DispatchEnv \<Rightarrow> string \<Rightarrow> World \<Rightarrow> bool
     \<Rightarrow> (JsError + 'r) \<times> World \<times> DispatchEvent list" where
  "sendMessage C E model w fallbackEnabled =
     snd (attemptLoop C E fallbackEnabled model (maxAttempts C w) 0 w)"

definition sendMessageStream ::
  "Constants \<Rightarrow> ('y, unit) DispatchEnv \<Rightarrow> string \<Rightarrow> World \<Rightarrow> bool
     \<Rightarrow> 'y list \<times> (JsError + unit) \<times> World \<times> DispatchEvent list" where
  "sendMessageStream C E model w fallbackEnabled =
     attemptLoop C E fallbackEnabled model (maxAttempts C w) 0 w"

section \<open>Well-formed event sequences\<close>

text \<open>
  The order of events that a client of the Anthropic stream relies on, as an automaton
  over the events: one \<^verbatim>\<open>message_start\<close> first; then blocks, each a \<^verbatim>\<open>content_block_start\<close>,
  deltas and a \<^verbatim>\<open>content_block_stop\<close> that all carry the index of the block, the indices
  being 0, 1, 2 and so on; a \<^verbatim>\<open>signature_delta\<close> or \<^verbatim>\<open>thinking_delta\<close> only inside an open
  thinking block, a \<^verbatim>\<open>text_delta\<close> only inside an open text block, an \<^verbatim>\<open>input_json_delta\<close>
  only inside an open tool-use block; and, with no block open, \<^verbatim>\<open>message_delta\<close> followed
  by \<^verbatim>\<open>message_stop\<close> at the end.
\<close>

datatype Phase = PInit | PIdle nat | POpen nat BlockType | PTail | PDone | PBad

fun blockKind :: "ContentBlock \<Rightarrow> BlockType" where
  "blockKind (ThinkingBlock t) = Thinking"
| "blockKind (TextBlock t) = Text"
| "blockKind (ToolUseBlock i n s) = ToolUse"

fun deltaFits :: "BlockType \<Rightarrow> Delta \<Rightarrow> bool" where
  "deltaFits Thinking (ThinkingDelta t) = True"
| "deltaFits Thinking (SignatureDelta s) = True"
| "deltaFits Text (TextDelta t) = True"
| "deltaFits ToolUse (InputJsonDelta j) = True"
| "deltaFits k d = False"

fun step :: "Phase \<Rightarrow> AnthropicSSEEvent \<Rightarrow> Phase" where
  "step PInit (MessageStart i m n c) = PIdle 0"
| "step (PIdle n) (ContentBlockStart i b) = (if i = n then POpen n (blockKind b) else PBad)"
| "step (POpen n k) (ContentBlockDelta i d) = (if i = n \<and> deltaFits k d then POpen n k else PBad)"
| "step (POpen n k) (ContentBlockStop i) = (if i = n then PIdle (Suc n) else PBad)"
| "step (PIdle n) (MessageDelta r out c) = PTail"
| "step PTail MessageStop = PDone"
| "step p e = PBad"






section \<open>Vocabulary for the dispatcher's properties\<close>

text \<open>A substitution of the fallback model, in a trace.\<close>

fun isFellBack :: "DispatchEvent \<Rightarrow> bool" where
  "isFellBack (FellBack a b) = True"
| "isFellBack e = False"

text \<open>
  The situation in which every account of the pool is rate-limited for the model: there
  is an account, and every account is valid and holds a limit for the model that is set
  and resets in the future.
\<close>

definition hasActiveLimit :: "int \<Rightarrow> string \<Rightarrow> Account \<Rightarrow> bool" where
  "hasActiveLimit now model a =
     (case map_of (modelRateLimits a) model of None \<Rightarrow> False | Some l \<Rightarrow> limitActive now l)"

definition everyAccountLimited :: "World \<Rightarrow> string \<Rightarrow> bool" where
  "everyAccountLimited w model =
     (am_accounts (accountManager w) \<noteq> [] \<and> model \<noteq> [] \<and>
      list_all (\<lambda>a. \<not> isInvalid a \<and> hasActiveLimit (clock w) model a)
               (am_accounts (accountManager w)))"

text \<open>
  The minimum wait until an account's reset, as \<^verbatim>\<open>getMinWaitTimeMs\<close> computes it, and the
  wait until the reset of the sticky account, the one at the current index.
\<close>

definition minWaitOf :: "Constants \<Rightarrow> World \<Rightarrow> string \<Rightarrow> int" where
  "minWaitOf C w model =
     getMinWaitTimeMs C (am_accounts (accountManager w)) (Some model) (clock w)"

definition stickyWaitOf :: "World \<Rightarrow> string \<Rightarrow> int" where
  "stickyWaitOf w model =
     limitWaitMs (Some model) (clock w)
       (am_accounts (accountManager w) !
          (if am_currentIndex (accountManager w) \<ge> length (am_accounts (accountManager w))
           then 0 else am_currentIndex (accountManager w)))"

section \<open>Example values\<close>

text \<open>Concrete constants, accounts and limits, for the instances evaluated below.\<close>

definition exConstants :: Constants where
  "exConstants =
     \<lparr>DEFAULT_COOLDOWN_MS = 60000, MAX_WAIT_BEFORE_ERROR_MS = 120000, MAX_RETRIES = 5,
      MIN_SIGNATURE_LENGTH = 50, TOKEN_REFRESH_INTERVAL_MS = 300000\<rparr>"

definition exAccount :: "string \<Rightarrow> (string \<times> ModelRateLimit) list \<Rightarrow> Account" where
  "exAccount e limits =
     \<lparr>email = e, source = Some ''oauth'', dbPath = None, refreshToken = Some ''rt'', apiKey = None,
      projectId = None, addedAt = None, isInvalid = False, invalidReason = None, invalidAt = None,
      modelRateLimits = limits, lastUsed = None, extra = []\<rparr>"

definition limitedUntil :: "int \<Rightarrow> ModelRateLimit" where
  "limitedUntil t = \<lparr>isRateLimited = True, resetTime = Some t\<rparr>"

definition exSettings :: AccountSettings where
  "exSettings = \<lparr>cooldownDurationMs = Some 30000, settings_extra = [(''theme'', JStr ''dark'')]\<rparr>"

definition exManager :: "Account list \<Rightarrow> nat \<Rightarrow> AccountManager" where
  "exManager accs i =
     \<lparr>am_accounts = accs, am_currentIndex = i, am_settings = exSettings, am_tokenCache = [],
      am_projectCache = [], am_saves = 0\<rparr>"

text \<open>
  A stand-in for \<^verbatim>\<open>JSON.parse\<close> on three lines: a response with usage and one text part, a
  response with usage and no candidate, and anything else, which does not parse.
\<close>

definition exUsage :: UsageMetadata where
  "exUsage = \<lparr>promptTokenCount = Some 100, candidatesTokenCount = Some 7,
              cachedContentTokenCount = Some 40\<rparr>"

definition exTextPart :: "string \<Rightarrow> Part" where
  "exTextPart t = \<lparr>thought = None, partText = Some t, thoughtSignature = None, functionCall = None\<rparr>"

definition exResponse :: "Part list \<Rightarrow> GoogleResponse" where
  "exResponse ps =
     \<lparr>usageMetadata = Some exUsage,
      candidates = Some [\<lparr>content = Some \<lparr>parts = Some ps\<rparr>, finishReason = Some ''STOP''\<rparr>],
      response = None\<rparr>"

definition exUsageOnly :: GoogleResponse where
  "exUsageOnly = \<lparr>usageMetadata = Some exUsage, candidates = None, response = None\<rparr>"

definition exSseEnv :: SseEnv where
  "exSseEnv =
     \<lparr>parseJson = (\<lambda>s. if s = ''hello'' then Some (exResponse [exTextPart ''Hello''])
                        else if s = ''usage'' then Some exUsageOnly
                        else None),
      stringify = (\<lambda>v. ''{}''),
      messageId = ''msg_1'',
      newToolId = (\<lambda>n. ''toolu_1'')\<rparr>"

text \<open>
  A configuration file with a field the core does not know on the account and one at the
  top level.
\<close>

definition exConfig :: AccountConfig where
  "exConfig =
     \<lparr>accounts = Some [(exAccount ''a'' [])\<lparr>extra := [(''nickname'', JStr ''x'')]\<rparr>],
      settings = Some exSettings, activeIndex = Some 0,
      config_extra = [(''version'', JNum 2)]\<rparr>"



text \<open>
  A world around a pool, and an upstream that answers every attempt at once; a fallback
  model is configured for every model.
\<close>

definition exWorld :: "Account list \<Rightarrow> nat \<Rightarrow> int \<Rightarrow> World" where
  "exWorld accs i t = \<lparr>accountManager = exManager accs i, clock = t\<rparr>"

definition exDispatchEnv :: "(unit, string) DispatchEnv" where
  "exDispatchEnv =
     \<lparr>tryAccount = (\<lambda>attempt acc model w. (([], Returned (''response from '' @ email acc)), w)),
      isRateLimitError = (\<lambda>e. False),
      isAuthError = (\<lambda>e. False),
      isNetworkErr = (\<lambda>e. False),
      getFallbackModel = (\<lambda>m. Some ''fallback-model''),
      formatDuration = (\<lambda>ms. ''a while''),
      toISOString = (\<lambda>t. ''later'')\<rparr>"

text \<open>
  The upstream of the streaming scenario: two thought parts, the second with a signature
  of 50 characters, two text parts and a function call, finished with \<^verbatim>\<open>TOOL_USE\<close>.
\<close>

definition exScenario :: GoogleResponse where
  "exScenario =
     \<lparr>usageMetadata = None,
      candidates = Some [\<lparr>content = Some \<lparr>parts = Some
         [\<lparr>thought = Some True, partText = Some ''t1'', thoughtSignature = None,
           functionCall = None\<rparr>,
          \<lparr>thought = Some True, partText = Some ''t2'',
           thoughtSignature = Some (replicate 50 (CHR ''s'')), functionCall = None\<rparr>,
          exTextPart ''A'',
          exTextPart ''B'',
          \<lparr>thought = None, partText = None, thoughtSignature = None,
           functionCall = Some \<lparr>fc_id = None, fc_name = ''f'', fc_args = None\<rparr>\<rparr>]\<rparr>,
         finishReason = Some ''TOOL_USE''\<rparr>],
      response = None\<rparr>"

section \<open>Rate-limit predicates\<close>

lemma clearLimit_limitActive [simp]: "limitActive now (clearLimit now l) = limitActive now l"
  by (auto simp: limitActive_def clearLimit_def limitExpired_def split: option.splits)

lemma map_of_clearLimit:
  "map_of (map (\<lambda>(m, l). (m, clearLimit now l)) kvs) k = map_option (clearLimit now) (map_of kvs k)"
  by (induction kvs) auto

lemma isAccountUsable_clear [simp]:
  "isAccountUsable (Some (clearAccountLimits now a)) m now = isAccountUsable (Some a) m now"
  by (auto simp: clearAccountLimits_def map_of_clearLimit split: option.splits)

lemma isInvalid_clear [simp]: "isInvalid (clearAccountLimits now a) = isInvalid a"
  by (simp add: clearAccountLimits_def)

lemma getAvailableAccounts_filter:
  "getAvailableAccounts accs m now = filter (\<lambda>a. isAccountUsable (Some a) m now) accs"
  by (simp add: getAvailableAccounts_def)

lemma getAvailableAccounts_clear_empty:
  "getAvailableAccounts (fst (clearExpiredLimits accs now)) m now = []
     \<longleftrightarrow> getAvailableAccounts accs m now = []"
  by (simp add: getAvailableAccounts_filter clearExpiredLimits_def filter_empty_conv
           del: isAccountUsable.simps)

lemma clearLimit_idem: "clearLimit now (clearLimit now l) = clearLimit now l"
  by (simp add: clearLimit_def limitExpired_def)

lemma clearAccountLimits_idem:
  "clearAccountLimits now (clearAccountLimits now a) = clearAccountLimits now a"
  by (simp add: clearAccountLimits_def comp_def case_prod_beta clearLimit_idem)

lemma clearExpiredLimits_idem:
  "fst (clearExpiredLimits (fst (clearExpiredLimits accs now)) now) = fst (clearExpiredLimits accs now)"
  by (simp add: clearExpiredLimits_def comp_def clearAccountLimits_idem)

text \<open>
  C5 (amended). For every list of accounts and every non-empty model id \<open>m\<close>,
  \<^verbatim>\<open>isAllRateLimited(accounts, m)\<close> is true if and only if every account is invalid or holds
  a limit for \<open>m\<close> that is set and whose reset time lies in the future. With no model
  (\<^verbatim>\<open>null\<close>) the function returns false when the list is not empty, and true when it is
  empty: the test for the empty list comes first.
\<close>

theorem isAllRateLimited_iff:
  "(m \<noteq> [] \<longrightarrow>
      (isAllRateLimited accs (Some m) now \<longleftrightarrow>
         (\<forall>acc \<in> set accs. isInvalid acc \<or>
            (\<exists>l. map_of (modelRateLimits acc) m = Some l \<and> limitActive now l))))
   \<and> (isAllRateLimited accs None now \<longleftrightarrow> accs = [])"
  by (cases accs) (auto simp: isAllRateLimited_def list_all_iff split: option.splits)

theorem isAllRateLimited_iff_witness:
  "isAllRateLimited [exAccount ''a'' [(''m'', limitedUntil 600000)]] (Some ''m'') 0
   \<and> \<not> isAllRateLimited [exAccount ''a'' [(''m'', limitedUntil 600000)]] None 0
   \<and> \<not> isAllRateLimited [exAccount ''a'' [(''m'', limitedUntil 600000)], exAccount ''b'' []]
          (Some ''m'') 0"
proof -
  have a: "\<forall>acc \<in> set [exAccount ''a'' [(''m'', limitedUntil 600000)]]. isInvalid acc \<or>
             (\<exists>l. map_of (modelRateLimits acc) ''m'' = Some l \<and> limitActive 0 l)"
    by (simp add: exAccount_def limitedUntil_def limitActive_def)
  have b: "\<not> (\<forall>acc \<in> set [exAccount ''a'' [(''m'', limitedUntil 600000)], exAccount ''b'' []].
             isInvalid acc \<or>
             (\<exists>l. map_of (modelRateLimits acc) ''m'' = Some l \<and> limitActive 0 l))"
    by (simp add: exAccount_def limitedUntil_def limitActive_def)
  show ?thesis
    using a b
      isAllRateLimited_iff [of "''m''" "[exAccount ''a'' [(''m'', limitedUntil 600000)]]" 0]
      isAllRateLimited_iff [of "''m''"
        "[exAccount ''a'' [(''m'', limitedUntil 600000)], exAccount ''b'' []]" 0]
    by simp
qed

text \<open>
  The claim as stated fails twice: with no model and no account the function returns
  true, and with the empty model id and one invalid account it returns false.
\<close>

theorem isAllRateLimited_counterexample:
  "isAllRateLimited [] None 0
   \<and> \<not> isAllRateLimited [(exAccount ''a'' [])\<lparr>isInvalid := True\<rparr>] (Some []) 0"
  by (simp add: isAllRateLimited_def)

section \<open>Marking a rate limit without a model\<close>

text \<open>
  C10. \<^verbatim>\<open>AccountManager.markRateLimited(email, resetMs)\<close> with a \<^verbatim>\<open>null\<close> or omitted model id
  (the parameter defaults to \<^verbatim>\<open>null\<close>) changes nothing: the accounts, with their
  \<^verbatim>\<open>modelRateLimits\<close>, \<^verbatim>\<open>isInvalid\<close> and \<^verbatim>\<open>lastUsed\<close>, stay as they are and no save is
  scheduled; the whole state of the manager is the one before the call.
\<close>

theorem markRateLimited_null_model_noop:
  "AccountManager_markRateLimited C mgr e resetMs None now = mgr"
  by (simp add: AccountManager_markRateLimited_def)

section \<open>Sticky selection with no usable account\<close>

lemma pickNext_none_available:
  "getAvailableAccounts accs m now = [] \<Longrightarrow>
   pickNext accs i sv m now =
     \<lparr>sel_accounts = fst (clearExpiredLimits accs now), account = None, newIndex = i, sel_saves = 0\<rparr>"
  by (simp add: pickNext_def getAvailableAccounts_clear_empty Let_def)

lemma none_available_not_usable:
  "getAvailableAccounts accs m now = [] \<Longrightarrow> k < length accs \<Longrightarrow>
   \<not> isAccountUsable (nthOpt (fst (clearExpiredLimits accs now)) k) m now"
  by (simp add: nthOpt_def clearExpiredLimits_def getAvailableAccounts_filter filter_empty_conv
           del: isAccountUsable.simps)

lemma getCurrentStickyAccount_none_available:
  "getAvailableAccounts accs m now = [] \<Longrightarrow>
   account (getCurrentStickyAccount accs i sv m now) = None \<and>
   sel_accounts (getCurrentStickyAccount accs i sv m now) = fst (clearExpiredLimits accs now) \<and>
   sel_saves (getCurrentStickyAccount accs i sv m now) = 0"
  using none_available_not_usable[of accs m now]
  by (auto simp add: getCurrentStickyAccount_def Let_def clearExpiredLimits_def
           simp del: isAccountUsable.simps)

lemma accountWait_clearLimit:
  "(if isRateLimited (clearLimit now l)
    then (case resetTime (clearLimit now l) of None \<Rightarrow> None | Some t \<Rightarrow> Some (t - now)) else None)
   = (case (if isRateLimited l
            then (case resetTime l of None \<Rightarrow> None | Some t \<Rightarrow> Some (t - now)) else None) of
        None \<Rightarrow> None | Some d \<Rightarrow> if d \<le> 0 then None else Some d)"
  by (auto simp: clearLimit_def limitExpired_def split: option.splits)

lemma accountWait_clear:
  "accountWait m now (clearAccountLimits now a) =
     (case accountWait m now a of None \<Rightarrow> None | Some d \<Rightarrow> if d \<le> 0 then None else Some d)"
proof (cases "truthy m")
  case False
  then show ?thesis by (simp add: accountWait_def)
next
  case True
  show ?thesis
  proof (cases "map_of (modelRateLimits a) (the m)")
    case None
    with True show ?thesis by (simp add: accountWait_def clearAccountLimits_def map_of_clearLimit)
  next
    case (Some l)
    with True show ?thesis
      using accountWait_clearLimit[of now l]
      by (simp add: accountWait_def clearAccountLimits_def map_of_clearLimit)
  qed
qed

lemma limitWaitMs_clear:
  "limitWaitMs m now (clearAccountLimits now a)
     = (if limitWaitMs m now a > 0 then limitWaitMs m now a else 0)"
  by (auto simp: limitWaitMs_def accountWait_clear split: option.splits)

lemma shouldWait_iff:
  "shouldWait (shouldWaitForCurrentAccount C accs i m now) \<longleftrightarrow>
     accs \<noteq> [] \<and> \<not> isInvalid (accs ! (if i \<ge> length accs then 0 else i)) \<and>
     limitWaitMs m now (accs ! (if i \<ge> length accs then 0 else i)) > 0 \<and>
     limitWaitMs m now (accs ! (if i \<ge> length accs then 0 else i)) \<le> MAX_WAIT_BEFORE_ERROR_MS C"
  by (cases accs) (auto simp add: shouldWaitForCurrentAccount_def Let_def nthOpt_def)

lemma shouldWait_clear:
  "shouldWait (shouldWaitForCurrentAccount C (fst (clearExpiredLimits accs now)) i m now)
     = shouldWait (shouldWaitForCurrentAccount C accs i m now)"
proof (cases "accs = []")
  case True
  then show ?thesis by (simp add: clearExpiredLimits_def)
next
  case False
  then have k: "(if i \<ge> length accs then 0 else i) < length accs" by auto
  show ?thesis
    unfolding shouldWait_iff using False k
    by (simp add: clearExpiredLimits_def limitWaitMs_clear)
qed

text \<open>
  C1 (amended). For every account pool and model, when no account is usable for the model
  (so the sticky account is not usable either) and the sticky account's limit is not due
  to reset within the wait threshold, \<^verbatim>\<open>pickStickyAccount\<close> returns no account, with
  \<^verbatim>\<open>waitMs = 0\<close>, and leaves the index where it was: \<^verbatim>\<open>pickNext\<close> finds nobody to advance
  to. The dispatcher then takes its path for a pool that is rate-limited as a whole.
\<close>

theorem pickStickyAccount_none_usable:
  assumes "getAvailableAccounts accs m now = []"
      and "\<not> shouldWait (shouldWaitForCurrentAccount C accs i m now)"
  shows "account (pickStickyAccount C accs i sv m now) = None \<and>
         waitMs (pickStickyAccount C accs i sv m now) = 0 \<and>
         newIndex (pickStickyAccount C accs i sv m now) = i"
proof -
  let ?cl = "fst (clearExpiredLimits accs now)"
  have av: "getAvailableAccounts ?cl m now = []"
    using assms(1) by (simp add: getAvailableAccounts_clear_empty)
  have sw: "\<not> shouldWait (shouldWaitForCurrentAccount C ?cl i m now)"
    using assms(2) by (simp add: shouldWait_clear)
  show ?thesis
    using getCurrentStickyAccount_none_available[OF assms(1), of i sv] av sw
          pickNext_none_available[OF av, of i sv]
    by (simp add: pickStickyAccount_def waitOrAdvance_def Let_def)
qed

theorem pickStickyAccount_none_usable_witness:
  "getAvailableAccounts [exAccount ''a'' [(''m'', limitedUntil 600000)],
                         exAccount ''b'' [(''m'', limitedUntil 900000)]] (Some ''m'') 0 = []
   \<and> \<not> shouldWait (shouldWaitForCurrentAccount exConstants
          [exAccount ''a'' [(''m'', limitedUntil 600000)],
           exAccount ''b'' [(''m'', limitedUntil 900000)]] 1 (Some ''m'') 0)
   \<and> account (pickStickyAccount exConstants
          [exAccount ''a'' [(''m'', limitedUntil 600000)],
           exAccount ''b'' [(''m'', limitedUntil 900000)]] 1 True (Some ''m'') 0) = None
   \<and> waitMs (pickStickyAccount exConstants
          [exAccount ''a'' [(''m'', limitedUntil 600000)],
           exAccount ''b'' [(''m'', limitedUntil 900000)]] 1 True (Some ''m'') 0) = 0
   \<and> newIndex (pickStickyAccount exConstants
          [exAccount ''a'' [(''m'', limitedUntil 600000)],
           exAccount ''b'' [(''m'', limitedUntil 900000)]] 1 True (Some ''m'') 0) = 1"
proof -
  have a: "getAvailableAccounts [exAccount ''a'' [(''m'', limitedUntil 600000)],
             exAccount ''b'' [(''m'', limitedUntil 900000)]] (Some ''m'') 0 = []"
    by code_simp
  have b: "\<not> shouldWait (shouldWaitForCurrentAccount exConstants
             [exAccount ''a'' [(''m'', limitedUntil 600000)],
              exAccount ''b'' [(''m'', limitedUntil 900000)]] 1 (Some ''m'') 0)"
    by code_simp
  show ?thesis
    using pickStickyAccount_none_usable[OF a b, of True] a b by simp
qed

text \<open>
  The claim as stated fails on a pool of one account whose limit for the model resets in
  ten minutes: the sticky account is unusable, nobody else is usable, the reset is beyond
  the threshold of two minutes, and the account returned is \<^verbatim>\<open>null\<close>.
\<close>

theorem pickStickyAccount_counterexample:
  "getAvailableAccounts [exAccount ''a'' [(''m'', limitedUntil 600000)]] (Some ''m'') 0 = []
   \<and> account (getCurrentStickyAccount [exAccount ''a'' [(''m'', limitedUntil 600000)]] 0 True
                (Some ''m'') 0) = None
   \<and> \<not> shouldWait (shouldWaitForCurrentAccount exConstants
          [exAccount ''a'' [(''m'', limitedUntil 600000)]] 0 (Some ''m'') 0)
   \<and> account (pickStickyAccount exConstants
          [exAccount ''a'' [(''m'', limitedUntil 600000)]] 0 True (Some ''m'') 0) = None"
  by code_simp

section \<open>The order of the events streamed\<close>

lemma foldl_step_PBad [simp]: "foldl step PBad evs = PBad"
  by (induction evs) auto





lemma updateUsage_fields [simp]:
  "hasEmittedStart (updateUsage st r) = hasEmittedStart st"
  "currentBlockType (updateUsage st r) = currentBlockType st"
  "blockIndex (updateUsage st r) = blockIndex st"
  by (simp_all add: updateUsage_def split: option.splits)

lemma updateStopReason_fields [simp]:
  "hasEmittedStart (updateStopReason st c) = hasEmittedStart st"
  "currentBlockType (updateStopReason st c) = currentBlockType st"
  "blockIndex (updateStopReason st c) = blockIndex st"
  by (simp_all add: updateStopReason_def split: option.splits)





lemma processLines_append:
  "processLines C E m st (xs @ ys) =
     (let (st1, ev1) = processLines C E m st xs; (st2, ev2) = processLines C E m st1 ys
      in (st2, ev1 @ ev2))"
  by (induction xs arbitrary: st) (auto simp: split_beta)

lemma processChunks_lines:
  "processChunks C E m st buf chunks = processLines C E m st (chunkLines buf chunks)"
  by (induction chunks arbitrary: st buf) (auto simp: processLines_append Let_def split_beta)









text \<open>
  The streaming scenario of the specification, run on the model: the thinking block
  receives its signature before it stops, the text parts share one block, and the function
  call sets the stop reason.
\<close>

lemma streaming_scenario_example:
  "(let (st, evs) = processData exConstants exSseEnv ''m'' initialStreamState exScenario
    in evs @ finishStream exSseEnv ''m'' st)
   = [MessageStart ''msg_1'' ''m'' 0 0,
      ContentBlockStart 0 (ThinkingBlock []),
      ContentBlockDelta 0 (ThinkingDelta ''t1''),
      ContentBlockDelta 0 (ThinkingDelta ''t2''),
      ContentBlockDelta 0 (SignatureDelta (replicate 50 (CHR ''s''))),
      ContentBlockStop 0,
      ContentBlockStart 1 (TextBlock []),
      ContentBlockDelta 1 (TextDelta ''A''),
      ContentBlockDelta 1 (TextDelta ''B''),
      ContentBlockStop 1,
      ContentBlockStart 2 (ToolUseBlock ''toolu_1'' ''f'' None),
      ContentBlockDelta 2 (InputJsonDelta ''{}''),
      ContentBlockStop 2,
      MessageDelta ''tool_use'' 0 0,
      MessageStop]"
  by code_simp


section \<open>A stream without parts\<close>

lemma processLine_no_parts:
  "lineParts E l = [] \<Longrightarrow>
   snd (processLine C E m st l) = [] \<and>
   hasEmittedStart (fst (processLine C E m st l)) = hasEmittedStart st"
  by (auto simp: processLine_def lineParts_def processData_def emitStart_def Let_def split: option.splits)

lemma processLines_no_parts:
  "\<forall>l \<in> set ls. lineParts E l = [] \<Longrightarrow>
   snd (processLines C E m st ls) = [] \<and>
   hasEmittedStart (fst (processLines C E m st ls)) = hasEmittedStart st"
proof (induction ls arbitrary: st)
  case Nil
  then show ?case by simp
next
  case (Cons l ls)
  obtain st1 ev1 where p1: "processLine C E m st l = (st1, ev1)" by (cases "processLine C E m st l")
  have "ev1 = []" "hasEmittedStart st1 = hasEmittedStart st"
    using processLine_no_parts[of E l C m st] Cons.prems p1 by simp_all
  then show ?case using Cons.IH[of st1] Cons.prems p1 by (simp add: split_beta)
qed

text \<open>
  C8 (amended). For every upstream stream in which no processed line carries a part,
  \<^verbatim>\<open>streamSSEResponse\<close> raises nothing and yields exactly six events: \<^verbatim>\<open>message_start\<close>; a
  \<^verbatim>\<open>content_block_start\<close> at index 0 for a text block with empty text; one
  \<^verbatim>\<open>content_block_delta\<close> at index 0 whose \<^verbatim>\<open>text_delta\<close> is the placeholder
  \<^verbatim>\<open>[No response received from API]\<close>; \<^verbatim>\<open>content_block_stop\<close> at index 0; \<^verbatim>\<open>message_delta\<close>;
  \<^verbatim>\<open>message_stop\<close>. The text of the one block is the placeholder, not the empty string.
\<close>

theorem streamSSEResponse_no_parts:
  assumes "\<forall>l \<in> set (chunkLines [] chunks). lineParts E l = []"
  shows "\<exists>i c r out. streamSSEResponse C E chunks m =
     [MessageStart (messageId E) m i c,
      ContentBlockStart 0 (TextBlock []),
      ContentBlockDelta 0 (TextDelta ''[No response received from API]''),
      ContentBlockStop 0,
      MessageDelta r out c,
      MessageStop]"
proof -
  obtain st evs where r: "processLines C E m initialStreamState (chunkLines [] chunks) = (st, evs)"
    by (cases "processLines C E m initialStreamState (chunkLines [] chunks)")
  have "evs = []" "\<not> hasEmittedStart st"
    using processLines_no_parts[OF assms, of C m initialStreamState] r
    by (simp_all add: initialStreamState_def)
  then show ?thesis
    using r by (simp add: streamSSEResponse_def processChunks_lines finishStream_def)
qed

theorem streamSSEResponse_no_parts_witness:
  "\<exists>i c r out. streamSSEResponse exConstants exSseEnv [''data: usage\<newline>''] ''m'' =
     [MessageStart (messageId exSseEnv) ''m'' i c,
      ContentBlockStart 0 (TextBlock []),
      ContentBlockDelta 0 (TextDelta ''[No response received from API]''),
      ContentBlockStop 0,
      MessageDelta r out c,
      MessageStop]"
proof -
  have h: "\<forall>l \<in> set (chunkLines [] [''data: usage\<newline>'']). lineParts exSseEnv l = []"
    by code_simp
  show ?thesis using streamSSEResponse_no_parts[OF h] by blast
qed

text \<open>
  The claim as stated fails on the empty stream: the block at index 0 is not left with
  empty text, it receives the placeholder as a text delta.
\<close>

theorem streamSSEResponse_empty_counterexample:
  "streamSSEResponse exConstants exSseEnv [] ''m'' =
     [MessageStart ''msg_1'' ''m'' 0 0,
      ContentBlockStart 0 (TextBlock []),
      ContentBlockDelta 0 (TextDelta ''[No response received from API]''),
      ContentBlockStop 0,
      MessageDelta ''end_turn'' 0 0,
      MessageStop]"
  by code_simp

section \<open>Usage accounting\<close>



section \<open>Saving and reloading the configuration\<close>

lemma loadAccounts_saveAccounts:
  "loadAccounts (saveAccounts old True accs sett idx) =
     (map (\<lambda>a. (savedAccount a)\<lparr>isInvalid := False, invalidReason := None\<rparr>) accs,
      sett,
      if idx \<ge> length accs then 0 else idx)"
  by (simp add: saveAccounts_def Let_def comp_def)

text \<open>
  C7 (amended). For every account list, settings and index, saving with \<^verbatim>\<open>saveAccounts\<close>
  and reloading with \<^verbatim>\<open>loadAccounts\<close> gives back the settings object whole (its unknown
  fields included), the active index (0 when it is out of range) and, of every account,
  \<^verbatim>\<open>email\<close>, \<^verbatim>\<open>source\<close>, \<^verbatim>\<open>dbPath\<close>, \<^verbatim>\<open>projectId\<close>, \<^verbatim>\<open>addedAt\<close>, \<^verbatim>\<open>modelRateLimits\<close> and
  \<^verbatim>\<open>lastUsed\<close>, the \<^verbatim>\<open>refreshToken\<close> of an oauth account and the \<^verbatim>\<open>apiKey\<close> of a manual one.
  \<^verbatim>\<open>isInvalid\<close> and \<^verbatim>\<open>invalidReason\<close> are reset by the load, and every other field of an
  account, \<^verbatim>\<open>invalidAt\<close> and the unknown fields, is not written by the save.
\<close>

theorem save_load_roundtrip:
  "map email (fst (loadAccounts (saveAccounts old True accs sett idx))) = map email accs
 \<and> map source (fst (loadAccounts (saveAccounts old True accs sett idx))) = map source accs
 \<and> map dbPath (fst (loadAccounts (saveAccounts old True accs sett idx))) = map dbPath accs
 \<and> map projectId (fst (loadAccounts (saveAccounts old True accs sett idx))) = map projectId accs
 \<and> map addedAt (fst (loadAccounts (saveAccounts old True accs sett idx))) = map addedAt accs
 \<and> map modelRateLimits (fst (loadAccounts (saveAccounts old True accs sett idx)))
      = map modelRateLimits accs
 \<and> map lastUsed (fst (loadAccounts (saveAccounts old True accs sett idx))) = map lastUsed accs
 \<and> map refreshToken (fst (loadAccounts (saveAccounts old True accs sett idx)))
      = map (\<lambda>a. if source a = Some ''oauth'' then refreshToken a else None) accs
 \<and> map apiKey (fst (loadAccounts (saveAccounts old True accs sett idx)))
      = map (\<lambda>a. if source a = Some ''manual'' then apiKey a else None) accs
 \<and> map isInvalid (fst (loadAccounts (saveAccounts old True accs sett idx))) = map (\<lambda>a. False) accs
 \<and> map invalidReason (fst (loadAccounts (saveAccounts old True accs sett idx)))
      = map (\<lambda>a. None) accs
 \<and> map invalidAt (fst (loadAccounts (saveAccounts old True accs sett idx))) = map (\<lambda>a. None) accs
 \<and> map extra (fst (loadAccounts (saveAccounts old True accs sett idx))) = map (\<lambda>a. []) accs
 \<and> fst (snd (loadAccounts (saveAccounts old True accs sett idx))) = sett
 \<and> snd (snd (loadAccounts (saveAccounts old True accs sett idx)))
      = (if idx \<ge> length accs then 0 else idx)"
  by (simp add: loadAccounts_saveAccounts savedAccount_def comp_def)

text \<open>
  The claim as stated fails on a file that holds an unknown field on its account and one
  at its top level: loading the file and saving what was loaded writes a file without
  them.
\<close>

theorem save_load_counterexample:
  "(case loadAccounts (Parsed exConfig) of
      (accs, sett, idx) \<Rightarrow> saveAccounts (Parsed exConfig) True accs sett idx)
   = Parsed \<lparr>accounts = Some [exAccount ''a'' []], settings = Some exSettings,
             activeIndex = Some 0, config_extra = []\<rparr>
   \<and> extra (hd (the (accounts exConfig))) = [(''nickname'', JStr ''x'')]
   \<and> config_extra exConfig = [(''version'', JNum 2)]"
  by (simp add: exConfig_def saveAccounts_def savedAccount_def exAccount_def)

section \<open>Failure of the token refresh\<close>







section \<open>The retry loop\<close>

declare attemptLoop.simps [simp del]

lemma selectForAttempt_no_fallback:
  "selectForAttempt C E model w = (s, w1, tr) \<Longrightarrow> filter isFellBack tr = []"
  by (auto simp add: selectForAttempt_def Let_def split_beta split: option.splits if_splits)

lemma afterTry_no_fallback:
  "afterTry E model res w = (out, w1, tr) \<Longrightarrow> filter isFellBack tr = []"
  by (auto simp add: afterTry_def Let_def split: TryResult.splits if_splits)

lemma attemptLoop_done:
  "\<not> attempt < maxA \<Longrightarrow>
   attemptLoop C E fb model maxA attempt w = ([], Inl (newError ''Max retries exceeded''), w, [])"
  by (subst attemptLoop.simps) simp

lemma attemptLoop_exhausted:
  "attempt < maxA \<Longrightarrow> selectForAttempt C E model w = (Exhausted err, w1, tr1) \<Longrightarrow>
   attemptLoop C E fb model maxA attempt w = ([], Inl err, w1, tr1)"
  by (subst attemptLoop.simps) simp

lemma attemptLoop_no_account:
  "attempt < maxA \<Longrightarrow> selectForAttempt C E model w = (NoAccount, w1, tr1) \<Longrightarrow>
   \<not> (fb \<and> truthy (getFallbackModel E model)) \<Longrightarrow>
   attemptLoop C E fb model maxA attempt w = ([], Inl (newError ''No accounts available''), w1, tr1)"
  by (subst attemptLoop.simps) (auto split: option.splits)

lemma attemptLoop_fallback:
  "attempt < maxA \<Longrightarrow> selectForAttempt C E model w = (NoAccount, w1, tr1) \<Longrightarrow>
   fb \<Longrightarrow> getFallbackModel E model = Some fm \<Longrightarrow> fm \<noteq> [] \<Longrightarrow>
   attemptLoop C E False fm (maxAttempts C w1) 0 w1 = (ys, out, w2, tr2) \<Longrightarrow>
   attemptLoop C E fb model maxA attempt w = (ys, out, w2, tr1 @ FellBack model fm # tr2)"
  by (subst attemptLoop.simps) simp

lemma attemptLoop_finish:
  "attempt < maxA \<Longrightarrow> selectForAttempt C E model w = (Proceed acc, w1, tr1) \<Longrightarrow>
   tryAccount E attempt acc model w1 = ((ys, res), w2) \<Longrightarrow>
   afterTry E model res w2 = (Some out, w3, tr3) \<Longrightarrow>
   attemptLoop C E fb model maxA attempt w = (ys, out, w3, tr1 @ Attempted (email acc) # tr3)"
  by (subst attemptLoop.simps) simp

lemma attemptLoop_continue:
  "attempt < maxA \<Longrightarrow> selectForAttempt C E model w = (Proceed acc, w1, tr1) \<Longrightarrow>
   tryAccount E attempt acc model w1 = ((ys, res), w2) \<Longrightarrow>
   afterTry E model res w2 = (None, w3, tr3) \<Longrightarrow>
   attemptLoop C E fb model maxA (Suc attempt) w3 = (ys', out, w4, tr4) \<Longrightarrow>
   attemptLoop C E fb model maxA attempt w
     = (ys @ ys', out, w4, tr1 @ Attempted (email acc) # tr3 @ tr4)"
  by (subst attemptLoop.simps) simp

lemma attemptLoop_no_fallback_aux:
  "maxA - attempt = n \<Longrightarrow>
   filter isFellBack (snd (snd (snd (attemptLoop C E False model maxA attempt w)))) = []"
proof (induction n arbitrary: attempt w)
  case 0
  then show ?case by (simp add: attemptLoop_done)
next
  case (Suc n)
  then have lt: "attempt < maxA" by simp
  obtain s w1 tr1 where sel: "selectForAttempt C E model w = (s, w1, tr1)"
    by (cases "selectForAttempt C E model w") auto
  have n1: "filter isFellBack tr1 = []" using selectForAttempt_no_fallback[OF sel] .
  show ?case
  proof (cases s)
    case (Exhausted err)
    then have "selectForAttempt C E model w = (Exhausted err, w1, tr1)" using sel by simp
    from attemptLoop_exhausted[OF lt this] show ?thesis using n1 by simp
  next
    case NoAccount
    then have "selectForAttempt C E model w = (NoAccount, w1, tr1)" using sel by simp
    from attemptLoop_no_account[OF lt this, of False] show ?thesis using n1 by simp
  next
    case (Proceed acc)
    obtain ys res w2 where t: "tryAccount E attempt acc model w1 = ((ys, res), w2)"
      by (cases "tryAccount E attempt acc model w1") auto
    obtain out w3 tr3 where a: "afterTry E model res w2 = (out, w3, tr3)"
      by (cases "afterTry E model res w2") auto
    have n3: "filter isFellBack tr3 = []" using afterTry_no_fallback[OF a] .
    show ?thesis
    proof (cases out)
      case (Some o1)
      have sel': "selectForAttempt C E model w = (Proceed acc, w1, tr1)" using sel Proceed by simp
      have a': "afterTry E model res w2 = (Some o1, w3, tr3)" using a Some by simp
      from attemptLoop_finish[OF lt sel' t a', of False] show ?thesis using n1 n3 by simp
    next
      case None
      obtain ys' o4 w4 tr4 where r: "attemptLoop C E False model maxA (Suc attempt) w3 = (ys', o4, w4, tr4)"
        by (cases "attemptLoop C E False model maxA (Suc attempt) w3") auto
      have "maxA - Suc attempt = n" using Suc.prems by simp
      then have n4: "filter isFellBack tr4 = []" using Suc.IH[of "Suc attempt" w3] r by simp
      have sel': "selectForAttempt C E model w = (Proceed acc, w1, tr1)" using sel Proceed by simp
      have a': "afterTry E model res w2 = (None, w3, tr3)" using a None by simp
      from attemptLoop_continue[OF lt sel' t a' r] show ?thesis using n1 n3 n4 by simp
    qed
  qed
qed

lemma attemptLoop_no_fallback:
  "attemptLoop C E False model maxA attempt w = (ys, out, w1, tr) \<Longrightarrow> filter isFellBack tr = []"
  using attemptLoop_no_fallback_aux[of maxA attempt "maxA - attempt" C E model w] by simp

lemma attemptLoop_fallback_once_aux:
  "maxA - attempt = n \<Longrightarrow>
   length (filter isFellBack (snd (snd (snd (attemptLoop C E fb model maxA attempt w))))) \<le> 1"
proof (induction n arbitrary: attempt w)
  case 0
  then show ?case by (simp add: attemptLoop_done)
next
  case (Suc n)
  then have lt: "attempt < maxA" by simp
  obtain s w1 tr1 where sel: "selectForAttempt C E model w = (s, w1, tr1)"
    by (cases "selectForAttempt C E model w") auto
  have n1: "filter isFellBack tr1 = []" using selectForAttempt_no_fallback[OF sel] .
  show ?case
  proof (cases s)
    case (Exhausted err)
    then have "selectForAttempt C E model w = (Exhausted err, w1, tr1)" using sel by simp
    from attemptLoop_exhausted[OF lt this] show ?thesis using n1 by simp
  next
    case NoAccount
    show ?thesis
    proof (cases "fb \<and> truthy (getFallbackModel E model)")
      case False
      have "selectForAttempt C E model w = (NoAccount, w1, tr1)" using sel NoAccount by simp
      from attemptLoop_no_account[OF lt this False] show ?thesis using n1 by simp
    next
      case True
      then obtain fm where fm: "getFallbackModel E model = Some fm" "fm \<noteq> []" "fb"
        by (cases "getFallbackModel E model") auto
      obtain ys o2 w2 tr2 where r: "attemptLoop C E False fm (maxAttempts C w1) 0 w1 = (ys, o2, w2, tr2)"
        by (cases "attemptLoop C E False fm (maxAttempts C w1) 0 w1") auto
      have n2: "filter isFellBack tr2 = []" using attemptLoop_no_fallback[OF r] .
      have "selectForAttempt C E model w = (NoAccount, w1, tr1)" using sel NoAccount by simp
      from attemptLoop_fallback[OF lt this fm(3) fm(1) fm(2) r] show ?thesis using n1 n2 by simp
    qed
  next
    case (Proceed acc)
    obtain ys res w2 where t: "tryAccount E attempt acc model w1 = ((ys, res), w2)"
      by (cases "tryAccount E attempt acc model w1") auto
    obtain out w3 tr3 where a: "afterTry E model res w2 = (out, w3, tr3)"
      by (cases "afterTry E model res w2") auto
    have n3: "filter isFellBack tr3 = []" using afterTry_no_fallback[OF a] .
    show ?thesis
    proof (cases out)
      case (Some o1)
      have sel': "selectForAttempt C E model w = (Proceed acc, w1, tr1)" using sel Proceed by simp
      have a': "afterTry E model res w2 = (Some o1, w3, tr3)" using a Some by simp
      from attemptLoop_finish[OF lt sel' t a', of fb] show ?thesis using n1 n3 by simp
    next
      case None
      obtain ys' o4 w4 tr4 where r: "attemptLoop C E fb model maxA (Suc attempt) w3 = (ys', o4, w4, tr4)"
        by (cases "attemptLoop C E fb model maxA (Suc attempt) w3") auto
      have "maxA - Suc attempt = n" using Suc.prems by simp
      then have n4: "length (filter isFellBack tr4) \<le> 1" using Suc.IH[of "Suc attempt" w3] r by simp
      have sel': "selectForAttempt C E model w = (Proceed acc, w1, tr1)" using sel Proceed by simp
      have a': "afterTry E model res w2 = (None, w3, tr3)" using a None by simp
      from attemptLoop_continue[OF lt sel' t a' r] show ?thesis using n1 n3 n4 by simp
    qed
  qed
qed

text \<open>
  C9. For every request, model and state, whatever the upstream does, the trace of
  \<^verbatim>\<open>sendMessage\<close> and the trace of \<^verbatim>\<open>sendMessageStream\<close> hold at most one substitution of
  the fallback model: the recursive call for the fallback model runs with
  \<^verbatim>\<open>fallbackEnabled = false\<close>, and a call with \<^verbatim>\<open>fallbackEnabled = false\<close> substitutes
  nothing.
\<close>

theorem fallback_at_most_once:
  "length (filter isFellBack (snd (snd (sendMessage C E model w fb)))) \<le> 1
   \<and> length (filter isFellBack (snd (snd (snd (sendMessageStream C E' model w fb))))) \<le> 1
   \<and> filter isFellBack (snd (snd (sendMessage C E model w False))) = []
   \<and> filter isFellBack (snd (snd (snd (sendMessageStream C E' model w False)))) = []"
  using attemptLoop_fallback_once_aux[of "maxAttempts C w" 0 "maxAttempts C w" C E fb model w]
        attemptLoop_fallback_once_aux[of "maxAttempts C w" 0 "maxAttempts C w" C E' fb model w]
        attemptLoop_no_fallback_aux[of "maxAttempts C w" 0 "maxAttempts C w" C E model w]
        attemptLoop_no_fallback_aux[of "maxAttempts C w" 0 "maxAttempts C w" C E' model w]
  by (simp add: sendMessage_def sendMessageStream_def)

text \<open>
  The bound is reached: with one invalid account and a fallback configured for every
  model, the fallback model is substituted once, and not again for the fallback model.
\<close>

lemma fallback_once_example:
  "snd (snd (sendMessage exConstants exDispatchEnv ''m''
               (exWorld [(exAccount ''a'' [])\<lparr>isInvalid := True\<rparr>] 0 0) True))
     = [Slept 60000, FellBack ''m'' ''fallback-model'', Slept 60000]"
  by code_simp

section \<open>A pool that is rate-limited as a whole\<close>

lemma pickStickyAccount_none_far:
  assumes "getAvailableAccounts accs m now = []"
      and "\<not> shouldWait (shouldWaitForCurrentAccount C accs i m now)"
  shows "pickStickyAccount C accs i sv m now =
           \<lparr>sel_accounts = fst (clearExpiredLimits accs now), account = None, newIndex = i,
            sel_saves = 0, waitMs = 0\<rparr>"
proof -
  let ?cl = "fst (clearExpiredLimits accs now)"
  have av: "getAvailableAccounts ?cl m now = []"
    using assms(1) by (simp add: getAvailableAccounts_clear_empty)
  have sw: "\<not> shouldWait (shouldWaitForCurrentAccount C ?cl i m now)"
    using assms(2) by (simp add: shouldWait_clear)
  show ?thesis
    using getCurrentStickyAccount_none_available[OF assms(1), of i sv] av sw
          pickNext_none_available[OF av, of i sv]
    by (simp add: pickStickyAccount_def waitOrAdvance_def Let_def clearExpiredLimits_idem)
qed

lemma sw_waitMs_eq:
  "shouldWait (shouldWaitForCurrentAccount C accs i m now) \<Longrightarrow>
   sw_waitMs (shouldWaitForCurrentAccount C accs i m now)
     = limitWaitMs m now (accs ! (if i \<ge> length accs then 0 else i))"
  by (cases accs) (auto simp add: shouldWaitForCurrentAccount_def Let_def nthOpt_def split: if_splits)

lemma pickStickyAccount_none_wait:
  assumes "getAvailableAccounts accs m now = []"
      and "shouldWait (shouldWaitForCurrentAccount C accs i m now)"
  shows "pickStickyAccount C accs i sv m now =
           \<lparr>sel_accounts = fst (clearExpiredLimits accs now), account = None, newIndex = i,
            sel_saves = 0,
            waitMs = limitWaitMs m now (accs ! (if i \<ge> length accs then 0 else i))\<rparr>"
proof -
  let ?cl = "fst (clearExpiredLimits accs now)"
  let ?k = "if i \<ge> length accs then 0 else i"
  have av: "getAvailableAccounts ?cl m now = []"
    using assms(1) by (simp add: getAvailableAccounts_clear_empty)
  have sw: "shouldWait (shouldWaitForCurrentAccount C ?cl i m now)"
    using assms(2) by (simp add: shouldWait_clear)
  have ne: "accs \<noteq> []" and pos: "limitWaitMs m now (accs ! ?k) > 0"
    using assms(2) unfolding shouldWait_iff by auto
  have k: "?k < length accs" using ne by auto
  have "sw_waitMs (shouldWaitForCurrentAccount C ?cl i m now) = limitWaitMs m now (?cl ! ?k)"
    using sw_waitMs_eq[OF sw] by (simp add: clearExpiredLimits_def)
  also have "\<dots> = limitWaitMs m now (accs ! ?k)"
    using k pos by (simp add: clearExpiredLimits_def limitWaitMs_clear)
  finally have w: "sw_waitMs (shouldWaitForCurrentAccount C ?cl i m now) = limitWaitMs m now (accs ! ?k)" .
  show ?thesis
    using getCurrentStickyAccount_none_available[OF assms(1), of i sv] av sw w
    by (simp add: pickStickyAccount_def waitOrAdvance_def Let_def)
qed


lemma minWaitLoop_lower:
  "minWaitLoop m now accs acc0 = Some r \<Longrightarrow>
   (\<forall>a \<in> set accs. \<forall>w. accountWait m now a = Some w \<and> w > 0 \<longrightarrow> r \<le> w)
   \<and> (\<forall>x. acc0 = Some x \<longrightarrow> r \<le> x)"
proof (induction accs arbitrary: acc0)
  case Nil
  then show ?case by simp
next
  case (Cons a accs)
  let ?acc1 = "(case accountWait m now a of
          None \<Rightarrow> acc0
        | Some w \<Rightarrow>
            (if w > 0 \<and> (case acc0 of None \<Rightarrow> True | Some m \<Rightarrow> w < m) then Some w
             else acc0))"
  have r: "minWaitLoop m now accs ?acc1 = Some r" using Cons.prems by simp
  note ih = Cons.IH[OF r]
  show ?case using ih by (auto split: option.splits if_splits)
qed

lemma minWaitLoop_attained:
  "minWaitLoop m now accs acc0 = Some r \<Longrightarrow>
   acc0 = Some r \<or> (\<exists>a \<in> set accs. accountWait m now a = Some r \<and> r > 0)"
proof (induction accs arbitrary: acc0)
  case Nil
  then show ?case by simp
next
  case (Cons a accs)
  let ?acc1 = "(case accountWait m now a of
          None \<Rightarrow> acc0
        | Some w \<Rightarrow>
            (if w > 0 \<and> (case acc0 of None \<Rightarrow> True | Some m \<Rightarrow> w < m) then Some w
             else acc0))"
  have r: "minWaitLoop m now accs ?acc1 = Some r" using Cons.prems by simp
  note ih = Cons.IH[OF r]
  show ?case using ih by (auto split: option.splits if_splits)
qed

lemma minWaitLoop_some:
  "acc0 \<noteq> None \<Longrightarrow> minWaitLoop m now accs acc0 \<noteq> None"
  by (induction accs arbitrary: acc0) (auto split: option.splits)

lemma minWaitLoop_exists:
  "\<exists>a \<in> set accs. \<exists>w. accountWait m now a = Some w \<and> w > 0 \<Longrightarrow>
   minWaitLoop m now accs acc0 \<noteq> None"
proof (induction accs arbitrary: acc0)
  case Nil
  then show ?case by simp
next
  case (Cons a accs)
  show ?case
  proof (cases "\<exists>w. accountWait m now a = Some w \<and> w > 0")
    case True
    then obtain w where w: "accountWait m now a = Some w" "w > 0" by blast
    then show ?thesis using minWaitLoop_some[of _ m now accs] by (cases acc0) auto
  next
    case False
    then have "\<exists>a \<in> set accs. \<exists>w. accountWait m now a = Some w \<and> w > 0" using Cons.prems by auto
    then show ?thesis using Cons.IH by simp
  qed
qed

lemma minWaitLoop_clear:
  "minWaitLoop m now (map (clearAccountLimits now) accs) acc0 = minWaitLoop m now accs acc0"
  by (induction accs arbitrary: acc0) (auto simp: accountWait_clear split: option.splits)

lemma isAllRateLimited_clear:
  "isAllRateLimited (fst (clearExpiredLimits accs now)) m now = isAllRateLimited accs m now"
  by (auto simp: isAllRateLimited_def clearExpiredLimits_def list_all_iff clearAccountLimits_def
        map_of_clearLimit split: option.splits)

lemma getMinWaitTimeMs_clear:
  "getMinWaitTimeMs C (fst (clearExpiredLimits accs now)) m now = getMinWaitTimeMs C accs m now"
  using isAllRateLimited_clear[of accs now m]
  by (simp add: getMinWaitTimeMs_def minWaitLoop_clear) (simp add: clearExpiredLimits_def minWaitLoop_clear)



lemma limitActive_clearLimit_mono: "limitActive t' (clearLimit t l) \<Longrightarrow> limitActive t' l"
  by (auto simp: clearLimit_def limitActive_def split: if_splits)

lemma isAccountUsable_clear_mono:
  "isAccountUsable (Some a) m t' \<Longrightarrow> isAccountUsable (Some (clearAccountLimits t a)) m t'"
  using limitActive_clearLimit_mono[of t' t]
  by (auto simp: clearAccountLimits_def map_of_clearLimit split: option.splits if_splits)

lemma isAccountUsable_after_wait:
  "\<not> isInvalid a \<Longrightarrow> accountWait m now a = Some w \<Longrightarrow> w \<le> d \<Longrightarrow>
   isAccountUsable (Some a) m (now + d)"
  by (auto simp: accountWait_def limitActive_def split: option.splits if_splits)


lemma cyclic_index:
  assumes "j < n" "index < n"
  shows "\<exists>i \<in> set [1 ..< Suc n]. (index + i) mod n = (j::nat)"
proof (cases "j > index")
  case True
  then have "j - index \<in> set [1 ..< Suc n]" using assms by auto
  moreover have "(index + (j - index)) mod n = j" using True assms by simp
  ultimately show ?thesis by blast
next
  case False
  then have "j + n - index \<in> set [1 ..< Suc n]" using assms by auto
  moreover have "(index + (j + n - index)) mod n = j" using False assms by simp
  ultimately show ?thesis by blast
qed

lemma pickNext_some:
  assumes "getAvailableAccounts accs m now \<noteq> []"
  shows "\<exists>acc. account (pickNext accs i sv m now) = Some acc \<and> email acc \<in> email ` set accs"
proof -
  let ?cl = "fst (clearExpiredLimits accs now)"
  let ?n = "length ?cl"
  let ?index = "if i \<ge> ?n then 0 else i"
  have av: "getAvailableAccounts ?cl m now \<noteq> []"
    using assms by (simp add: getAvailableAccounts_clear_empty)
  then obtain a where a: "a \<in> set ?cl" "isAccountUsable (Some a) m now"
    by (auto simp: getAvailableAccounts_filter filter_empty_conv simp del: isAccountUsable.simps)
  then obtain j where j: "j < ?n" "?cl ! j = a" by (auto simp: in_set_conv_nth)
  have n: "?n > 0" using j by auto
  then have idx: "?index < ?n" by auto
  obtain i0 where i0: "i0 \<in> set [1 ..< Suc ?n]" "(?index + i0) mod ?n = j"
    using cyclic_index[OF j(1) idx] by blast
  have "isAccountUsable (nthOpt ?cl ((?index + i0) mod ?n)) m now"
    using i0 j a by (simp add: nthOpt_def del: isAccountUsable.simps)
  then have "find (\<lambda>i. isAccountUsable (nthOpt ?cl ((?index + i) mod ?n)) m now) [1 ..< Suc ?n] \<noteq> None"
    using i0(1) unfolding find_None_iff by blast
  then obtain i1 where f: "find (\<lambda>i. isAccountUsable (nthOpt ?cl ((?index + i) mod ?n)) m now)
                              [1 ..< Suc ?n] = Some i1" by auto
  have lt: "(?index + i1) mod ?n < ?n" using n by simp
  have em: "email (?cl ! ((?index + i1) mod ?n)) \<in> email ` set accs"
  proof -
    have "?cl ! ((?index + i1) mod ?n) \<in> set ?cl" using lt nth_mem by blast
    then show ?thesis by (auto simp: clearExpiredLimits_def clearAccountLimits_def)
  qed
  show ?thesis
    using av f em by (simp add: pickNext_def Let_def)
qed


lemma getCurrentStickyAccount_usable:
  assumes "accs \<noteq> []"
      and "isAccountUsable (Some (accs ! (if i \<ge> length accs then 0 else i))) m now"
  shows "\<exists>acc. account (getCurrentStickyAccount accs i sv m now) = Some acc
               \<and> email acc = email (accs ! (if i \<ge> length accs then 0 else i))"
proof -
  let ?k = "if i \<ge> length accs then 0 else i"
  have k: "?k < length accs" using assms(1) by auto
  have "isAccountUsable (Some (clearAccountLimits now (accs ! ?k))) m now"
    using assms(2) by (simp del: isAccountUsable.simps)
  then have u: "isAccountUsable (nthOpt (fst (clearExpiredLimits accs now)) ?k) m now"
    using k by (simp add: nthOpt_def clearExpiredLimits_def del: isAccountUsable.simps)
  have e: "email (fst (clearExpiredLimits accs now) ! ?k) = email (accs ! ?k)"
    using k by (simp add: clearExpiredLimits_def clearAccountLimits_def)
  show ?thesis
    using assms(1) u e k
    by (auto simp add: getCurrentStickyAccount_def Let_def clearExpiredLimits_def
             simp del: isAccountUsable.simps)
qed

lemma attemptLoop_proceed_trace:
  assumes "attempt < maxA" and "selectForAttempt C E model w = (Proceed acc, w1, tr1)"
  shows "\<exists>rest. snd (snd (snd (attemptLoop C E fb model maxA attempt w)))
                  = tr1 @ Attempted (email acc) # rest"
proof -
  obtain ys res w2 where t: "tryAccount E attempt acc model w1 = ((ys, res), w2)"
    by (cases "tryAccount E attempt acc model w1") auto
  obtain out w3 tr3 where a: "afterTry E model res w2 = (out, w3, tr3)"
    by (cases "afterTry E model res w2") auto
  show ?thesis
  proof (cases out)
    case (Some o1)
    have a': "afterTry E model res w2 = (Some o1, w3, tr3)" using a Some by simp
    from attemptLoop_finish[OF assms(1) assms(2) t a', of fb] show ?thesis by simp
  next
    case None
    obtain ys' o4 w4 tr4 where r: "attemptLoop C E fb model maxA (Suc attempt) w3 = (ys', o4, w4, tr4)"
      by (cases "attemptLoop C E fb model maxA (Suc attempt) w3") auto
    have a': "afterTry E model res w2 = (None, w3, tr3)" using a None by simp
    from attemptLoop_continue[OF assms(1) assms(2) t a' r] show ?thesis by simp
  qed
qed

lemma selectForAttempt_all_limited:
  fixes w :: World and model :: string and C :: Constants
  defines "accs \<equiv> am_accounts (accountManager w)"
      and "now \<equiv> clock w"
      and "i \<equiv> am_currentIndex (accountManager w)"
  defines "k \<equiv> (if i \<ge> length accs then 0 else i)"
  defines "sw \<equiv> limitWaitMs (Some model) now (accs ! k)"
      and "minW \<equiv> getMinWaitTimeMs C accs (Some model) now"
  assumes ne: "accs \<noteq> []" and m: "model \<noteq> []"
      and lim: "\<forall>a \<in> set accs. \<not> isInvalid a \<and>
                 (\<exists>l. map_of (modelRateLimits a) model = Some l \<and> limitActive now l)"
  shows "(minW > MAX_WAIT_BEFORE_ERROR_MS C \<longrightarrow>
            fst (selectForAttempt C E model w) = Exhausted (resourceExhausted E model minW now)
            \<and> snd (snd (selectForAttempt C E model w)) = [])
       \<and> (minW \<le> MAX_WAIT_BEFORE_ERROR_MS C \<longrightarrow>
            (\<exists>acc. fst (selectForAttempt C E model w) = Proceed acc
                   \<and> email acc \<in> email ` set accs
                   \<and> snd (snd (selectForAttempt C E model w))
                       = [Slept (if sw \<le> MAX_WAIT_BEFORE_ERROR_MS C then sw else minW)]))"
proof -
  let ?m = "Some model"
  let ?MAX = "MAX_WAIT_BEFORE_ERROR_MS C"
  let ?cl = "fst (clearExpiredLimits accs now)"
  have k: "k < length accs" using ne by (auto simp: k_def)
  have waits: "\<And>a. a \<in> set accs \<Longrightarrow> \<exists>wv. accountWait ?m now a = Some wv \<and> wv > 0 \<and> \<not> isInvalid a"
    using lim m by (fastforce simp: accountWait_def limitActive_def split: option.splits)
  have F1: "getAvailableAccounts accs ?m now = []"
    using lim m by (auto simp: getAvailableAccounts_def filter_empty_conv)
  have F2: "isAllRateLimited accs ?m now"
    using lim m ne by (auto simp: isAllRateLimited_def list_all_iff)
  obtain mw where mw: "minWaitLoop ?m now accs None = Some mw"
    using minWaitLoop_exists[of accs ?m now None] waits ne
    by (metis last_in_set not_Some_eq)
  have minW: "minW = mw" using F2 mw by (simp add: minW_def getMinWaitTimeMs_def)
  obtain a0 where a0: "a0 \<in> set accs" "accountWait ?m now a0 = Some mw" "mw > 0"
    using minWaitLoop_attained[OF mw] by auto
  have a0v: "\<not> isInvalid a0" using waits[OF a0(1)] by blast
  obtain ws where ws: "accountWait ?m now (accs ! k) = Some ws" "ws > 0" "\<not> isInvalid (accs ! k)"
    using waits[of "accs ! k"] k by auto
  have sw: "sw = ws" using ws by (simp add: sw_def limitWaitMs_def)
  have le: "mw \<le> ws" using minWaitLoop_lower[OF mw] ws k by (meson nth_mem)
  have shw: "shouldWait (shouldWaitForCurrentAccount C accs i ?m now) \<longleftrightarrow> sw \<le> ?MAX"
    unfolding shouldWait_iff using ne ws sw by (simp add: k_def sw_def)
  have allcl: "isAllRateLimited ?cl ?m now" using F2 by (simp add: isAllRateLimited_clear)
  have mincl: "getMinWaitTimeMs C ?cl ?m now = mw"
    using minW by (simp add: getMinWaitTimeMs_clear minW_def)
  show ?thesis
  proof (cases "sw \<le> ?MAX")
    case True
    then have mle: "minW \<le> ?MAX" using le sw minW by simp
    have ps: "pickStickyAccount C accs i True ?m now =
                \<lparr>sel_accounts = ?cl, account = None, newIndex = i, sel_saves = 0, waitMs = sw\<rparr>"
      using pickStickyAccount_none_wait[OF F1, of C i True] shw True by (simp add: sw_def k_def)
    let ?t = "now + sw"
    let ?cl2 = "fst (clearExpiredLimits ?cl ?t)"
    have len2: "?cl2 \<noteq> []" "length ?cl2 = length accs" using ne by (simp_all add: clearExpiredLimits_def)
    have "isAccountUsable (Some (accs ! k)) ?m ?t"
      using isAccountUsable_after_wait[OF ws(3) ws(1), of sw] sw by simp
    then have "isAccountUsable (Some (clearAccountLimits ?t (clearAccountLimits now (accs ! k)))) ?m ?t"
      by (intro isAccountUsable_clear_mono)
    then have u: "isAccountUsable (Some (?cl2 ! (if i \<ge> length ?cl2 then 0 else i))) ?m ?t"
      using k len2(2) by (simp add: clearExpiredLimits_def k_def del: isAccountUsable.simps)
    obtain acc where acc: "account (getCurrentStickyAccount ?cl2 i True ?m ?t) = Some acc"
        "email acc = email (?cl2 ! (if i \<ge> length ?cl2 then 0 else i))"
      using getCurrentStickyAccount_usable[OF len2(1) u, of True] by blast
    have em: "email acc \<in> email ` set accs"
    proof -
      have "email acc = email (accs ! k)"
        using acc(2) k len2(2) by (simp add: clearExpiredLimits_def k_def clearAccountLimits_def)
      then show ?thesis using k by (metis image_eqI nth_mem)
    qed
    have swpos: "sw > 0" using ws sw by simp
    have sel: "fst (selectForAttempt C E model w) = Proceed acc
               \<and> snd (snd (selectForAttempt C E model w)) = [Slept sw]"
      using ps acc(1) swpos
      by (simp add: selectForAttempt_def AccountManager_pickStickyAccount_def applySelection_def
            AccountManager_clearExpiredLimits_def AccountManager_getCurrentStickyAccount_def
            sleep_def saveToDisk_def Let_def split_beta accs_def[symmetric] now_def[symmetric]
            i_def[symmetric])
    show ?thesis using sel em True mle by auto
  next
    case False
    have ps: "pickStickyAccount C accs i True ?m now =
                \<lparr>sel_accounts = ?cl, account = None, newIndex = i, sel_saves = 0, waitMs = 0\<rparr>"
      using pickStickyAccount_none_far[OF F1, of C i True] shw False by simp
    show ?thesis
    proof (cases "minW > ?MAX")
      case True
      have "fst (selectForAttempt C E model w) = Exhausted (resourceExhausted E model minW now)
            \<and> snd (snd (selectForAttempt C E model w)) = []"
        using ps allcl mincl True minW
        by (simp add: selectForAttempt_def AccountManager_pickStickyAccount_def applySelection_def
              AccountManager_isAllRateLimited_def AccountManager_getMinWaitTimeMs_def
              Let_def split_beta accs_def[symmetric] now_def[symmetric] i_def[symmetric])
      then show ?thesis using True by simp
    next
      case F2': False
      let ?t = "now + mw"
      let ?cl2 = "fst (clearExpiredLimits ?cl ?t)"
      have "isAccountUsable (Some a0) ?m ?t"
        using isAccountUsable_after_wait[OF a0v a0(2), of mw] by simp
      then have "isAccountUsable (Some (clearAccountLimits ?t (clearAccountLimits now a0))) ?m ?t"
        by (intro isAccountUsable_clear_mono)
      moreover have "clearAccountLimits ?t (clearAccountLimits now a0) \<in> set ?cl2"
        using a0(1) by (simp add: clearExpiredLimits_def)
      ultimately have "\<exists>x \<in> set ?cl2. isAccountUsable (Some x) ?m ?t" by blast
      then have av: "getAvailableAccounts ?cl2 ?m ?t \<noteq> []"
        by (simp add: getAvailableAccounts_filter filter_empty_conv del: isAccountUsable.simps)
      obtain acc where acc: "account (pickNext ?cl2 i True ?m ?t) = Some acc"
          "email acc \<in> email ` set ?cl2"
        using pickNext_some[OF av, of i True] by blast
      have em: "email acc \<in> email ` set accs"
        using acc(2) by (auto simp: clearExpiredLimits_def clearAccountLimits_def)
      have sel: "fst (selectForAttempt C E model w) = Proceed acc
               \<and> snd (snd (selectForAttempt C E model w)) = [Slept mw]"
        using ps allcl mincl F2' minW acc(1) a0(3)
        by (simp add: selectForAttempt_def AccountManager_pickStickyAccount_def applySelection_def
              AccountManager_isAllRateLimited_def AccountManager_getMinWaitTimeMs_def
              AccountManager_clearExpiredLimits_def AccountManager_pickNext_def
              sleep_def saveToDisk_def Let_def split_beta accs_def[symmetric] now_def[symmetric]
              i_def[symmetric])
      show ?thesis using sel em False F2' minW by auto
    qed
  qed
qed

lemma everyAccountLimited_iff:
  "everyAccountLimited w model \<longleftrightarrow>
     am_accounts (accountManager w) \<noteq> [] \<and> model \<noteq> [] \<and>
     (\<forall>a \<in> set (am_accounts (accountManager w)). \<not> isInvalid a \<and>
        (\<exists>l. map_of (modelRateLimits a) model = Some l \<and> limitActive (clock w) l))"
  by (auto simp: everyAccountLimited_def hasActiveLimit_def list_all_iff split: option.splits)

lemma attemptLoop_all_limited:
  assumes "everyAccountLimited w model" and "0 < maxA"
  shows "(minWaitOf C w model > MAX_WAIT_BEFORE_ERROR_MS C \<longrightarrow>
            fst (snd (attemptLoop C E fb model maxA 0 w))
              = Inl (resourceExhausted E model (minWaitOf C w model) (clock w))
            \<and> snd (snd (snd (attemptLoop C E fb model maxA 0 w))) = [])
       \<and> (minWaitOf C w model \<le> MAX_WAIT_BEFORE_ERROR_MS C \<longrightarrow>
            (\<exists>e rest. snd (snd (snd (attemptLoop C E fb model maxA 0 w)))
                        = Slept (if stickyWaitOf w model \<le> MAX_WAIT_BEFORE_ERROR_MS C
                                 then stickyWaitOf w model else minWaitOf C w model)
                          # Attempted e # rest
                      \<and> e \<in> email ` set (am_accounts (accountManager w))))"
proof -
  have p: "am_accounts (accountManager w) \<noteq> []" "model \<noteq> []"
     "\<forall>a \<in> set (am_accounts (accountManager w)). \<not> isInvalid a \<and>
        (\<exists>l. map_of (modelRateLimits a) model = Some l \<and> limitActive (clock w) l)"
    using assms(1) unfolding everyAccountLimited_iff by simp_all
  note sel = selectForAttempt_all_limited[OF p, of C E, folded minWaitOf_def stickyWaitOf_def]
  obtain s w1 tr1 where r: "selectForAttempt C E model w = (s, w1, tr1)"
    by (cases "selectForAttempt C E model w") auto
  show ?thesis
  proof (cases "minWaitOf C w model > MAX_WAIT_BEFORE_ERROR_MS C")
    case True
    then have "selectForAttempt C E model w
                 = (Exhausted (resourceExhausted E model (minWaitOf C w model) (clock w)), w1, [])"
      using sel r by simp
    from attemptLoop_exhausted[OF assms(2) this, of fb] show ?thesis using True by simp
  next
    case False
    then obtain acc where acc: "s = Proceed acc"
        "email acc \<in> email ` set (am_accounts (accountManager w))"
        "tr1 = [Slept (if stickyWaitOf w model \<le> MAX_WAIT_BEFORE_ERROR_MS C
                       then stickyWaitOf w model else minWaitOf C w model)]"
      using sel r by auto
    have "selectForAttempt C E model w = (Proceed acc, w1, tr1)" using r acc(1) by simp
    from attemptLoop_proceed_trace[OF assms(2) this, of fb] show ?thesis
      using False acc(2) acc(3) by auto
  qed
qed

text \<open>
  C4 (amended). Whenever every account is valid and rate-limited for the requested
  model: if the minimum wait until an account's reset exceeds the threshold,
  \<^verbatim>\<open>sendMessage\<close> (and \<^verbatim>\<open>sendMessageStream\<close>) throws the \<^verbatim>\<open>RESOURCE_EXHAUSTED\<close> error that
  carries this wait and the time of the reset, and no sleep occurs; if the minimum wait is
  within the threshold, it does not throw: it sleeps once, for the wait of the sticky
  account when that too is within the threshold and for the minimum wait otherwise, and
  then hands an account of the pool to the upstream.
\<close>

theorem all_accounts_rate_limited:
  assumes "everyAccountLimited w model"
  shows "(minWaitOf C w model > MAX_WAIT_BEFORE_ERROR_MS C \<longrightarrow>
            fst (sendMessage C E model w fb)
              = Inl (resourceExhausted E model (minWaitOf C w model) (clock w))
            \<and> snd (snd (sendMessage C E model w fb)) = []
            \<and> fst (snd (sendMessageStream C E' model w fb))
              = Inl (resourceExhausted E' model (minWaitOf C w model) (clock w))
            \<and> snd (snd (snd (sendMessageStream C E' model w fb))) = [])
       \<and> (minWaitOf C w model \<le> MAX_WAIT_BEFORE_ERROR_MS C \<longrightarrow>
            (\<exists>e rest. snd (snd (sendMessage C E model w fb))
                        = Slept (if stickyWaitOf w model \<le> MAX_WAIT_BEFORE_ERROR_MS C
                                 then stickyWaitOf w model else minWaitOf C w model)
                          # Attempted e # rest
                      \<and> e \<in> email ` set (am_accounts (accountManager w)))
            \<and> (\<exists>e rest. snd (snd (snd (sendMessageStream C E' model w fb)))
                        = Slept (if stickyWaitOf w model \<le> MAX_WAIT_BEFORE_ERROR_MS C
                                 then stickyWaitOf w model else minWaitOf C w model)
                          # Attempted e # rest
                      \<and> e \<in> email ` set (am_accounts (accountManager w))))"
proof -
  have pos: "0 < maxAttempts C w" by (simp add: maxAttempts_def)
  show ?thesis
    using attemptLoop_all_limited[OF assms pos, of C E fb]
          attemptLoop_all_limited[OF assms pos, of C E' fb]
    by (simp add: sendMessage_def sendMessageStream_def)
qed

theorem all_accounts_rate_limited_witness:
  "fst (sendMessage exConstants exDispatchEnv ''m''
          (exWorld [exAccount ''a'' [(''m'', limitedUntil 600000)],
                    exAccount ''b'' [(''m'', limitedUntil 700000)]] 0 0) False)
     = Inl (resourceExhausted exDispatchEnv ''m'' 600000 0)
   \<and> snd (snd (sendMessage exConstants exDispatchEnv ''m''
          (exWorld [exAccount ''a'' [(''m'', limitedUntil 600000)],
                    exAccount ''b'' [(''m'', limitedUntil 700000)]] 0 0) False)) = []
   \<and> (\<exists>e rest. snd (snd (sendMessage exConstants exDispatchEnv ''m''
          (exWorld [exAccount ''a'' [(''m'', limitedUntil 600000)],
                    exAccount ''b'' [(''m'', limitedUntil 10000)]] 0 0) False))
        = Slept 10000 # Attempted e # rest)"
proof -
  let ?w1 = "exWorld [exAccount ''a'' [(''m'', limitedUntil 600000)],
                      exAccount ''b'' [(''m'', limitedUntil 700000)]] 0 0"
  let ?w2 = "exWorld [exAccount ''a'' [(''m'', limitedUntil 600000)],
                      exAccount ''b'' [(''m'', limitedUntil 10000)]] 0 0"
  have h1: "everyAccountLimited ?w1 ''m''" by code_simp
  have h2: "everyAccountLimited ?w2 ''m''" by code_simp
  have m1: "minWaitOf exConstants ?w1 ''m'' = 600000" by code_simp
  have m2: "minWaitOf exConstants ?w2 ''m'' = 10000" by code_simp
  have s2: "stickyWaitOf ?w2 ''m'' = 600000" by code_simp
  have c: "clock ?w1 = 0" by (simp add: exWorld_def)
  have mx: "MAX_WAIT_BEFORE_ERROR_MS exConstants = 120000" by (simp add: exConstants_def)
  have g1: "minWaitOf exConstants ?w1 ''m'' > MAX_WAIT_BEFORE_ERROR_MS exConstants"
    using m1 mx by simp
  have g2: "minWaitOf exConstants ?w2 ''m'' \<le> MAX_WAIT_BEFORE_ERROR_MS exConstants"
    using m2 mx by simp
  have g3: "\<not> stickyWaitOf ?w2 ''m'' \<le> MAX_WAIT_BEFORE_ERROR_MS exConstants"
    using s2 mx by simp
  have a: "fst (sendMessage exConstants exDispatchEnv ''m'' ?w1 False)
             = Inl (resourceExhausted exDispatchEnv ''m'' (minWaitOf exConstants ?w1 ''m'') (clock ?w1))
           \<and> snd (snd (sendMessage exConstants exDispatchEnv ''m'' ?w1 False)) = []"
    using all_accounts_rate_limited[OF h1, of exConstants exDispatchEnv False] g1 by blast
  have b: "\<exists>e rest. snd (snd (sendMessage exConstants exDispatchEnv ''m'' ?w2 False))
             = Slept (if stickyWaitOf ?w2 ''m'' \<le> MAX_WAIT_BEFORE_ERROR_MS exConstants
                      then stickyWaitOf ?w2 ''m'' else minWaitOf exConstants ?w2 ''m'')
               # Attempted e # rest"
    using all_accounts_rate_limited[OF h2, of exConstants exDispatchEnv False] g2 by blast
  show ?thesis
    using a b g3 m1 m2 c by simp
qed

text \<open>
  The claim as stated fails on a pool of two accounts whose sticky account resets in 100
  seconds and whose other account resets in 10 seconds: every account is rate-limited,
  the minimum wait of 10 seconds is within the threshold, and the dispatcher sleeps 100
  seconds, until the sticky account is free again.
\<close>

theorem all_accounts_rate_limited_counterexample:
  "everyAccountLimited
     (exWorld [exAccount ''a'' [(''m'', limitedUntil 100000)],
               exAccount ''b'' [(''m'', limitedUntil 10000)]] 0 0) ''m''
   \<and> minWaitOf exConstants
        (exWorld [exAccount ''a'' [(''m'', limitedUntil 100000)],
                  exAccount ''b'' [(''m'', limitedUntil 10000)]] 0 0) ''m'' = 10000
   \<and> snd (snd (sendMessage exConstants exDispatchEnv ''m''
        (exWorld [exAccount ''a'' [(''m'', limitedUntil 100000)],
                  exAccount ''b'' [(''m'', limitedUntil 10000)]] 0 0) False))
       = [Slept 100000, Attempted ''a'']"
  by code_simp

end
